theory Spec2Isabelle
  imports Main "HOL-Library.Sublist" "HOL-Library.AList"
begin

chapter \<open>The CERN remote application of invenio-oauthclient\<close>

text \<open>
  A shallow embedding of \<^verbatim>\<open>invenio_oauthclient/contrib/cern.py\<close>. Python objects
  that the module mutates (the Flask session, the identity's \<^verbatim>\<open>provides\<close> set, the
  linked accounts and their \<^verbatim>\<open>extra_data\<close>) are fields of an explicit state; what
  the module reads from outside (the clock, the REST answer, the directory answer, the
  configuration, the current user) is an argument. An exception is the left summand of
  the result. Strings are lists of 8-bit characters; the model is about ASCII text.
\<close>

section \<open>Exceptions\<close>

datatype pyexn =
    IndexError
  | TypeError
  | KeyError
  | AttributeError
  | UnicodeDecodeError
  | OverflowError
  | HTTPException nat

section \<open>Group filter\<close>

subsection \<open>Compiled patterns\<close>

text \<open>
  The fragment of Python's \<^verbatim>\<open>re\<close> patterns that the built-in deny-list uses:
  literal characters, character ranges such as \<^verbatim>\<open>[A-Z]\<close> and \<^verbatim>\<open>\d\<close>, concatenation,
  alternation and repetition. \<open>lang\<close> is the set of strings a pattern matches in full.
\<close>

datatype regex =
    Nul
  | Eps
  | Lit char
  | Range char char
  | Alt regex regex
  | Cat regex regex
  | Star regex

inductive_set star :: "string set \<Rightarrow> string set" for A :: "string set" where
  star_nil: "[] \<in> star A"
| star_app: "u \<in> A \<Longrightarrow> v \<in> star A \<Longrightarrow> u @ v \<in> star A"

definition in_range :: "char \<Rightarrow> char \<Rightarrow> char \<Rightarrow> bool" where
  "in_range a b c = ((of_char a :: nat) \<le> of_char c \<and> (of_char c :: nat) \<le> of_char b)"

fun lang :: "regex \<Rightarrow> string set" where
  "lang Nul = {}"
| "lang Eps = {[]}"
| "lang (Lit a) = {[a]}"
| "lang (Range a b) = {[c] | c. in_range a b c}"
| "lang (Alt r s) = lang r \<union> lang s"
| "lang (Cat r s) = {u @ v | u v. u \<in> lang r \<and> v \<in> lang s}"
| "lang (Star r) = star (lang r)"

fun nullable :: "regex \<Rightarrow> bool" where
  "nullable Nul = False"
| "nullable Eps = True"
| "nullable (Lit a) = False"
| "nullable (Range a b) = False"
| "nullable (Alt r s) = (nullable r \<or> nullable s)"
| "nullable (Cat r s) = (nullable r \<and> nullable s)"
| "nullable (Star r) = True"

fun deriv :: "char \<Rightarrow> regex \<Rightarrow> regex" where
  "deriv c Nul = Nul"
| "deriv c Eps = Nul"
| "deriv c (Lit a) = (if c = a then Eps else Nul)"
| "deriv c (Range a b) = (if in_range a b c then Eps else Nul)"
| "deriv c (Alt r s) = Alt (deriv c r) (deriv c s)"
| "deriv c (Cat r s) =
     (if nullable r then Alt (Cat (deriv c r) s) (deriv c s) else Cat (deriv c r) s)"
| "deriv c (Star r) = Cat (deriv c r) (Star r)"

text \<open>
  \<^verbatim>\<open>regexp.match(group)\<close> is truthy when the pattern matches at the start of the string:
  some prefix of the string is matched in full.
\<close>

fun re_match :: "regex \<Rightarrow> string \<Rightarrow> bool" where
  "re_match r [] = nullable r"
| "re_match r (c # cs) = (nullable r \<or> re_match (deriv c r) cs)"

fun Str :: "string \<Rightarrow> regex" where
  "Str [] = Eps"
| "Str (c # cs) = Cat (Lit c) (Str cs)"

definition Plus :: "regex \<Rightarrow> regex" where
  "Plus r = Cat r (Star r)"

subsection \<open>The built-in deny-lists\<close>

definition OAUTHCLIENT_CERN_HIDDEN_GROUPS :: "string list" where
  "OAUTHCLIENT_CERN_HIDDEN_GROUPS =
    [''All Exchange People'',
     ''CERN Users'',
     ''cern-computing-postmasters'',
     ''cern-nice2000-postmasters'',
     ''CMF FrontEnd Users'',
     ''CMF_NSC_259_NSU'',
     ''Domain Users'',
     ''GP Apply Favorites Redirection'',
     ''GP Apply NoAdmin'',
     ''info-terminalservices'',
     ''info-terminalservices-members'',
     ''IT Web IT'',
     ''NICE Deny Enforce Password-protected Screensaver'',
     ''NICE Enforce Password-protected Screensaver'',
     ''NICE LightWeight Authentication WS Users'',
     ''NICE MyDocuments Redirection (New)'',
     ''NICE Profile Redirection'',
     ''NICE Terminal Services Users'',
     ''NICE Users'',
     ''NICE VPN Users'']"

definition OAUTHCLIENT_CERN_HIDDEN_GROUPS_RE :: "regex list" where
  "OAUTHCLIENT_CERN_HIDDEN_GROUPS_RE =
    [Cat (Str ''Users by Letter '') (Range CHR ''A'' CHR ''Z''),
     Cat (Str ''building-'') (Plus (Range CHR ''0'' CHR ''9'')),
     Cat (Str ''Users by Home CERNHOME'') (Range CHR ''A'' CHR ''Z'')]"

subsection \<open>fetch_groups\<close>

text \<open>
  The two deny-lists are what \<^verbatim>\<open>current_app.config.get\<close> returns: the configured value,
  or the built-in list when the key is not configured.
\<close>

definition config_get :: "'a option \<Rightarrow> 'a \<Rightarrow> 'a" where
  "config_get configured dflt = (case configured of None \<Rightarrow> dflt | Some v \<Rightarrow> v)"

definition fetch_groups :: "string list \<Rightarrow> regex list \<Rightarrow> string list \<Rightarrow> string list" where
  "fetch_groups hidden_groups hidden_groups_re groups =
    (let groups1 = [group \<leftarrow> groups. group \<notin> set hidden_groups];
         filter_groups =
           concat (map (\<lambda>regexp. [group \<leftarrow> groups1. re_match regexp group]) hidden_groups_re)
     in [group \<leftarrow> groups1. group \<notin> set filter_groups])"

section \<open>Clock\<close>

text \<open>
  A model of the parts of Python's \<^verbatim>\<open>datetime\<close> that \<^verbatim>\<open>should_refresh_groups\<close> uses:
  naive datetimes in the proleptic Gregorian calendar (years 1 to 9999), the addition of
  a \<^verbatim>\<open>timedelta\<close> (a whole number of microseconds), \<^verbatim>\<open>isoformat()\<close> and the
  comparison of strings by code point.
\<close>

record datetime =
  year :: int
  month :: int
  day :: int
  hour :: int
  minute :: int
  second :: int
  microsecond :: int

datatype timedelta = Microseconds int

definition minutes :: "int \<Rightarrow> timedelta" where
  "minutes m = Microseconds (m * 60000000)"

definition is_leap :: "int \<Rightarrow> bool" where
  "is_leap y = (y mod 4 = 0 \<and> (y mod 100 \<noteq> 0 \<or> y mod 400 = 0))"

definition days_before_year :: "int \<Rightarrow> int" where
  "days_before_year y = (let p = y - 1 in p * 365 + p div 4 - p div 100 + p div 400)"

definition days_before_month :: "int \<Rightarrow> int \<Rightarrow> int" where
  "days_before_month y m =
     (let l = (if is_leap y then 1 else 0) in
      if m \<le> 1 then 0 else if m = 2 then 31 else if m = 3 then 59 + l
      else if m = 4 then 90 + l else if m = 5 then 120 + l else if m = 6 then 151 + l
      else if m = 7 then 181 + l else if m = 8 then 212 + l else if m = 9 then 243 + l
      else if m = 10 then 273 + l else if m = 11 then 304 + l else if m = 12 then 334 + l
      else 365 + l)"

definition days_in_month :: "int \<Rightarrow> int \<Rightarrow> int" where
  "days_in_month y m = days_before_month y (m + 1) - days_before_month y m"

definition ymd2ord :: "int \<Rightarrow> int \<Rightarrow> int \<Rightarrow> int" where
  "ymd2ord y m d = days_before_year y + days_before_month y m + d"

text \<open>
  \<^verbatim>\<open>date.fromordinal\<close>: day 1 is January 1 of year 1. The year of an ordinal is
  the last year whose first day comes before it, found by stepping from a lower estimate
  and never past the last year, 9999. The month is found the same way among the twelve
  months of that year.
\<close>

definition MAXYEAR :: int where
  "MAXYEAR = 9999"

function year_from :: "int \<Rightarrow> int \<Rightarrow> int" where
  "year_from n y =
     (if y < MAXYEAR \<and> days_before_year (y + 1) < n then year_from n (y + 1) else y)"
  by pat_completeness auto
termination
  by (relation "measure (\<lambda>(n, y). nat (MAXYEAR - y))") auto

function month_from :: "int \<Rightarrow> int \<Rightarrow> int \<Rightarrow> int" where
  "month_from y k m =
     (if m < 12 \<and> days_before_month y (m + 1) < k then month_from y k (m + 1) else m)"
  by pat_completeness auto
termination
  by (relation "measure (\<lambda>(y, k, m). nat (12 - m))") auto

declare year_from.simps [simp del]
declare month_from.simps [simp del]

definition ord2ymd :: "int \<Rightarrow> int \<times> int \<times> int" where
  "ord2ymd n =
     (let y = year_from n ((n - 1) div 366 + 1);
          k = n - days_before_year y;
          m = month_from y k 1
      in (y, m, k - days_before_month y m))"

text \<open>
  \<^verbatim>\<open>datetime + timedelta\<close>: the sum is taken on the microsecond count and raises
  \<^verbatim>\<open>OverflowError\<close> when its day falls outside years 1 to 9999.
\<close>

definition MAXORDINAL :: int where
  "MAXORDINAL = 3652059"

definition valid_datetime :: "datetime \<Rightarrow> bool" where
  "valid_datetime d =
     (1 \<le> year d \<and> year d \<le> 9999 \<and> 1 \<le> month d \<and> month d \<le> 12 \<and>
      1 \<le> day d \<and> day d \<le> days_in_month (year d) (month d) \<and>
      0 \<le> hour d \<and> hour d < 24 \<and> 0 \<le> minute d \<and> minute d < 60 \<and>
      0 \<le> second d \<and> second d < 60 \<and> 0 \<le> microsecond d \<and> microsecond d < 1000000)"

definition toordinal :: "datetime \<Rightarrow> int" where
  "toordinal d = ymd2ord (year d) (month d) (day d)"

definition total_microseconds :: "datetime \<Rightarrow> int" where
  "total_microseconds d =
     ((toordinal d * 86400 + hour d * 3600 + minute d * 60 + second d) * 1000000
        + microsecond d)"

definition datetime_add :: "datetime \<Rightarrow> timedelta \<Rightarrow> pyexn + datetime" where
  "datetime_add d td =
     (case td of Microseconds us \<Rightarrow>
        let t = total_microseconds d + us;
            delta_days = t div 86400000000;
            delta_seconds = (t mod 86400000000) div 1000000;
            delta_microseconds = t mod 1000000;
            rem = delta_seconds mod 3600
        in if 0 < delta_days \<and> delta_days \<le> MAXORDINAL
           then (case ord2ymd delta_days of (y, m, dd) \<Rightarrow>
                   Inr \<lparr>year = y, month = m, day = dd,
                        hour = delta_seconds div 3600, minute = rem div 60,
                        second = rem mod 60, microsecond = delta_microseconds\<rparr>)
           else Inl OverflowError)"

text \<open>
  \<^verbatim>\<open>isoformat()\<close> prints \<^verbatim>\<open>YYYY-MM-DDTHH:MM:SS\<close>, followed by \<^verbatim>\<open>.ffffff\<close> only when the
  microsecond is not zero. \<open>zero_padded w n\<close> is \<^verbatim>\<open>'%0wd' % n\<close> for \<open>0 \<le> n < 10 ^ w\<close>,
  which holds of every field of a valid datetime.
\<close>

definition digit :: "int \<Rightarrow> char" where
  "digit n = char_of (nat (48 + n))"

primrec zero_padded :: "nat \<Rightarrow> int \<Rightarrow> string" where
  "zero_padded 0 n = []"
| "zero_padded (Suc w) n = zero_padded w (n div 10) @ [digit (n mod 10)]"

definition fraction :: "int \<Rightarrow> string" where
  "fraction us = (if us = 0 then [] else ''.'' @ zero_padded 6 us)"

definition isoformat :: "datetime \<Rightarrow> string" where
  "isoformat d =
     zero_padded 4 (year d) @ ''-'' @ zero_padded 2 (month d) @ ''-'' @ zero_padded 2 (day d)
       @ ''T'' @ zero_padded 2 (hour d) @ '':'' @ zero_padded 2 (minute d) @ '':''
       @ zero_padded 2 (second d) @ fraction (microsecond d)"

text \<open>
  Python compares two \<^verbatim>\<open>str\<close> values by code point, a proper prefix being smaller.
  Comparing \<^verbatim>\<open>None\<close> with a \<^verbatim>\<open>str\<close> raises \<^verbatim>\<open>TypeError\<close> (Python 3, which the
  module's \<^verbatim>\<open>bytes\<close> handling presupposes).
\<close>

fun str_lt :: "string \<Rightarrow> string \<Rightarrow> bool" where
  "str_lt [] [] = False"
| "str_lt [] (y # ys) = True"
| "str_lt (x # xs) [] = False"
| "str_lt (x # xs) (y # ys) =
     ((of_char x :: nat) < of_char y \<or> (x = y \<and> str_lt xs ys))"

definition py_gt :: "string option \<Rightarrow> string \<Rightarrow> pyexn + bool" where
  "py_gt a b = (case a of None \<Rightarrow> Inl TypeError | Some s \<Rightarrow> Inr (str_lt b s))"

subsection \<open>should_refresh_groups\<close>

text \<open>
  \<^verbatim>\<open>utcnow\<close> is the clock's reading. The source's \<^verbatim>\<open>if updated is None\<close> tests the
  datetime just read, which is never \<^verbatim>\<open>None\<close>, so that branch is never taken and
  \<^verbatim>\<open>extra_data_updated\<close> reaches the comparison as it came.
\<close>

definition should_refresh_groups ::
  "datetime \<Rightarrow> string option \<Rightarrow> timedelta option \<Rightarrow> pyexn + bool" where
  "should_refresh_groups utcnow extra_data_updated refresh_timedelta =
     (let updated = utcnow in
      case (case refresh_timedelta of
              None \<Rightarrow> Inr updated
            | Some td \<Rightarrow> datetime_add updated td) of
        Inl e \<Rightarrow> Inl e
      | Inr modified_since_dt \<Rightarrow>
          let modified_since = isoformat modified_since_dt;
              last_update = extra_data_updated
          in (case py_gt last_update modified_since of
                Inl e \<Rightarrow> Inl e
              | Inr newer \<Rightarrow> if newer then Inr False else Inr True))"


subsection \<open>Orders on datetimes\<close>

text \<open>
  \<open>datetime_lt\<close> is Python's \<^verbatim>\<open><\<close> on naive datetimes: the fields compared in order.
\<close>

definition valid_date :: "int \<Rightarrow> int \<Rightarrow> int \<Rightarrow> bool" where
  "valid_date y m d \<longleftrightarrow> 1 \<le> m \<and> m \<le> 12 \<and> 1 \<le> d \<and> d \<le> days_in_month y m"

definition datetime_lt :: "datetime \<Rightarrow> datetime \<Rightarrow> bool" where
  "datetime_lt a b \<longleftrightarrow>
     year a < year b \<or> (year a = year b \<and>
     (month a < month b \<or> (month a = month b \<and>
     (day a < day b \<or> (day a = day b \<and>
     (hour a < hour b \<or> (hour a = hour b \<and>
     (minute a < minute b \<or> (minute a = minute b \<and>
     (second a < second b \<or> (second a = second b \<and>
      microsecond a < microsecond b)))))))))))"

definition second_of_day :: "datetime \<Rightarrow> int" where
  "second_of_day a = (hour a * 60 + minute a) * 60 + second a"

text \<open>A clock reading for the examples: 2020-03-01T00:02:30.\<close>

definition now0 :: datetime where
  "now0 = \<lparr>year = 2020, month = 3, day = 1, hour = 0, minute = 2, second = 30, microsecond = 0\<rparr>"

section \<open>Canonical resource record\<close>

text \<open>
  A resource record is a Python \<^verbatim>\<open>dict\<close> from a claim name to a list. The lists the
  module builds are lists of strings, or the one-element list \<^verbatim>\<open>[None]\<close> that stands for
  a missing directory attribute. The record keeps its keys in insertion order, as a
  \<^verbatim>\<open>dict\<close> does; a key occurs once.
\<close>

datatype field_values = Values "string list" | NoneList

type_synonym resource = "(string \<times> field_values) list"

text \<open>\<^verbatim>\<open>d.get(key, [None])[0]\<close>: the first element of the field, \<^verbatim>\<open>None\<close> included.\<close>

definition first_or_none :: "resource \<Rightarrow> string \<Rightarrow> pyexn + string option" where
  "first_or_none d key =
     (case map_of d key of
        None \<Rightarrow> Inr None
      | Some NoneList \<Rightarrow> Inr None
      | Some (Values []) \<Rightarrow> Inl IndexError
      | Some (Values (v # vs)) \<Rightarrow> Inr (Some v))"

section \<open>Resource normalizer\<close>

definition REMOTE_APP_RESOURCE_SCHEMA :: string where
  "REMOTE_APP_RESOURCE_SCHEMA = ''http://schemas.xmlsoap.org/claims/''"

text \<open>
  \<^verbatim>\<open>s.replace(old, '')\<close>: every occurrence of \<open>old\<close>, scanning from the left and not
  overlapping, is removed. With an empty \<open>old\<close> the string is returned as it is.
\<close>

function replace_with_empty :: "string \<Rightarrow> string \<Rightarrow> string" where
  "replace_with_empty old s =
     (if old \<noteq> [] \<and> s \<noteq> [] \<and> prefix old s
      then replace_with_empty old (drop (length old) s)
      else (case s of [] \<Rightarrow> [] | c # cs \<Rightarrow> c # replace_with_empty old cs))"
  by pat_completeness auto
termination
  by (relation "measure (\<lambda>(old, s). length s)") auto

declare replace_with_empty.simps [simp del]

text \<open>
  The answer of \<^verbatim>\<open>remote.get\<close>: its \<^verbatim>\<open>status\<close>, the code of the underlying response
  \<^verbatim>\<open>_resp\<close> (\<open>None\<close> when \<^verbatim>\<open>_resp\<close> is falsy) and the parsed body, a list of
  \<^verbatim>\<open>{'Type': ..., 'Value': ...}\<close> items.
\<close>

record claim_item =
  Type :: string
  Value :: string

record oauth_response =
  status :: nat
  resp_code :: "nat option"
  data :: "claim_item list"

text \<open>
  \<^verbatim>\<open>result.setdefault(k, list()); result[k].append(v)\<close>. The lists of \<open>result\<close> are
  built here from the empty list, so none of them is \<^verbatim>\<open>[None]\<close>.
\<close>

definition append_value :: "string \<Rightarrow> string \<Rightarrow> resource \<Rightarrow> resource" where
  "append_value k v result =
     AList.update k
       (case map_of result k of
          None \<Rightarrow> Values [v]
        | Some NoneList \<Rightarrow> NoneList
        | Some (Values vs) \<Rightarrow> Values (vs @ [v]))
       result"

definition get_dict_from_response :: "oauth_response \<Rightarrow> resource" where
  "get_dict_from_response response =
     (if (case resp_code response of None \<Rightarrow> False | Some code \<Rightarrow> code > 400) then []
      else fold (\<lambda>i result.
                   append_value (replace_with_empty REMOTE_APP_RESOURCE_SCHEMA (Type i))
                     (Value i) result)
             (data response) [])"

text \<open>
  The normalizer as the specification words it, for comparison: the field name is the
  claim's type with the schema URI stripped when the type starts with it.
\<close>

definition strip_schema_prefix :: "string \<Rightarrow> string" where
  "strip_schema_prefix t =
     (if prefix REMOTE_APP_RESOURCE_SCHEMA t
      then drop (length REMOTE_APP_RESOURCE_SCHEMA) t else t)"

definition normalize_by_prefix :: "oauth_response \<Rightarrow> resource" where
  "normalize_by_prefix response =
     (if (case resp_code response of None \<Rightarrow> False | Some code \<Rightarrow> code > 400) then []
      else fold (\<lambda>i result. append_value (strip_schema_prefix (Type i)) (Value i) result)
             (data response) [])"

section \<open>Directory fallback client\<close>

subsection \<open>Python values of a directory answer\<close>

text \<open>
  What \<^verbatim>\<open>lc.result()\<close> may return: nested tuples, lists and dictionaries (keyed by
  strings) of byte strings. Text is ASCII in this model: \<^verbatim>\<open>bytes.decode('utf-8')\<close> of
  bytes below 128 is the same characters, and a byte from 128 on is reported as
  \<^verbatim>\<open>UnicodeDecodeError\<close>.
\<close>

datatype pyval =
    PNone
  | PInt int
  | PStr string
  | PBytes string
  | PList "pyval list"
  | PTuple "pyval list"
  | PDict "(string \<times> pyval) list"

text \<open>\<^verbatim>\<open>v[i]\<close> for a literal index \<open>i \<ge> 0\<close>.\<close>

definition nth_or_IndexError :: "'a list \<Rightarrow> nat \<Rightarrow> pyexn + 'a" where
  "nth_or_IndexError xs i = (if i < length xs then Inr (xs ! i) else Inl IndexError)"

fun py_index :: "pyval \<Rightarrow> nat \<Rightarrow> pyexn + pyval" where
  "py_index (PList xs) i = nth_or_IndexError xs i"
| "py_index (PTuple xs) i = nth_or_IndexError xs i"
| "py_index (PStr s) i = map_sum id (\<lambda>c. PStr [c]) (nth_or_IndexError s i)"
| "py_index (PBytes b) i = map_sum id (\<lambda>c. PInt (of_char c)) (nth_or_IndexError b i)"
| "py_index (PDict d) i = Inl KeyError"
| "py_index PNone i = Inl TypeError"
| "py_index (PInt n) i = Inl TypeError"

text \<open>\<^verbatim>\<open>v['key']\<close>\<close>

fun py_key :: "pyval \<Rightarrow> string \<Rightarrow> pyexn + pyval" where
  "py_key (PDict d) k = (case map_of d k of None \<Rightarrow> Inl KeyError | Some v \<Rightarrow> Inr v)"
| "py_key v k = Inl TypeError"

text \<open>\<^verbatim>\<open>v.get(key, default)\<close>: only a \<^verbatim>\<open>dict\<close> has the method.\<close>

fun py_get :: "pyval \<Rightarrow> string \<Rightarrow> pyval \<Rightarrow> pyexn + pyval" where
  "py_get (PDict d) k dflt = Inr (case map_of d k of None \<Rightarrow> dflt | Some v \<Rightarrow> v)"
| "py_get v k dflt = Inl AttributeError"

fun py_truthy :: "pyval \<Rightarrow> bool" where
  "py_truthy PNone = False"
| "py_truthy (PInt n) = (n \<noteq> 0)"
| "py_truthy (PStr s) = (s \<noteq> [])"
| "py_truthy (PBytes b) = (b \<noteq> [])"
| "py_truthy (PList xs) = (xs \<noteq> [])"
| "py_truthy (PTuple xs) = (xs \<noteq> [])"
| "py_truthy (PDict d) = (d \<noteq> [])"

text \<open>\<^verbatim>\<open>v.decode('utf-8')\<close>: only \<^verbatim>\<open>bytes\<close> has the method.\<close>

fun py_decode :: "pyval \<Rightarrow> pyexn + string" where
  "py_decode (PBytes b) =
     (if list_all (\<lambda>c. (of_char c :: nat) < 128) b then Inr b else Inl UnicodeDecodeError)"
| "py_decode v = Inl AttributeError"

text \<open>\<^verbatim>\<open>for x in v\<close>\<close>

fun py_iter :: "pyval \<Rightarrow> pyexn + pyval list" where
  "py_iter (PList xs) = Inr xs"
| "py_iter (PTuple xs) = Inr xs"
| "py_iter (PStr s) = Inr (map (\<lambda>c. PStr [c]) s)"
| "py_iter (PBytes b) = Inr (map (\<lambda>c. PInt (of_char c)) b)"
| "py_iter (PDict d) = Inr (map (\<lambda>(k, v). PStr k) d)"
| "py_iter PNone = Inl TypeError"
| "py_iter (PInt n) = Inl TypeError"

text \<open>\<^verbatim>\<open>b.split(sep)\<close> for a one-byte separator: at least one piece.\<close>

fun split_on :: "char \<Rightarrow> string \<Rightarrow> string list" where
  "split_on sep [] = [[]]"
| "split_on sep (c # cs) =
     (if c = sep then [] # split_on sep cs
      else (case split_on sep cs of
              [] \<Rightarrow> [[c]]
            | w # ws \<Rightarrow> (c # w) # ws))"

text \<open>
  \<^verbatim>\<open>v.split(b',')\<close> with a \<^verbatim>\<open>bytes\<close> separator: \<^verbatim>\<open>bytes\<close> splits, \<^verbatim>\<open>str\<close> refuses
  the separator, nothing else has the method.
\<close>

fun py_split_bytes :: "pyval \<Rightarrow> char \<Rightarrow> pyexn + string list" where
  "py_split_bytes (PBytes b) sep = Inr (split_on sep b)"
| "py_split_bytes (PStr s) sep = Inl TypeError"
| "py_split_bytes v sep = Inl AttributeError"

definition char_lower :: "char \<Rightarrow> char" where
  "char_lower c =
     (if (65::nat) \<le> of_char c \<and> (of_char c :: nat) \<le> 90
      then char_of ((of_char c :: nat) + 32) else c)"

definition py_lower :: "string \<Rightarrow> string" where
  "py_lower s = map char_lower s"

subsection \<open>get_user_resources_ldap\<close>

text \<open>The inner function \<^verbatim>\<open>get_ldap_field_str(res, key)\<close>.\<close>

definition get_ldap_field_str :: "pyval \<Rightarrow> string \<Rightarrow> pyexn + field_values" where
  "get_ldap_field_str res key =
     (case py_get res key (PList [PNone]) of
        Inl e \<Rightarrow> Inl e
      | Inr got \<Rightarrow>
          (case py_index got 0 of
             Inl e \<Rightarrow> Inl e
           | Inr v \<Rightarrow>
               if py_truthy v
               then (case py_decode v of Inl e \<Rightarrow> Inl e | Inr s \<Rightarrow> Inr (Values [s]))
               else Inr NoneList))"

text \<open>
  One turn of the loop over \<^verbatim>\<open>res['memberOf']\<close>:
  \<^verbatim>\<open>group.split(b',')[0]\<close>, then \<^verbatim>\<open>.split(b'=')[1]\<close>, then \<^verbatim>\<open>.decode('utf-8')\<close>.
\<close>

definition group_of_dn :: "pyval \<Rightarrow> pyexn + string" where
  "group_of_dn dn =
     (case py_split_bytes dn CHR '','' of
        Inl e \<Rightarrow> Inl e
      | Inr pieces \<Rightarrow>
          (case nth_or_IndexError pieces 0 of
             Inl e \<Rightarrow> Inl e
           | Inr rdn \<Rightarrow>
               (case nth_or_IndexError (split_on CHR ''='' rdn) 1 of
                  Inl e \<Rightarrow> Inl e
                | Inr name \<Rightarrow> py_decode (PBytes name))))"

text \<open>
  The loop appends to \<^verbatim>\<open>groups\<close> as it goes: when a turn raises, the names appended
  before it stay in the list.
\<close>

fun collect_groups :: "pyval list \<Rightarrow> string list \<Rightarrow> pyexn option \<times> string list" where
  "collect_groups [] groups = (None, groups)"
| "collect_groups (g # gs) groups =
     (case group_of_dn g of
        Inl e \<Rightarrow> (Some e, groups)
      | Inr name \<Rightarrow> collect_groups gs (groups @ [name]))"

text \<open>
  The body of the \<^verbatim>\<open>try\<close> block. \<open>lc_result\<close> is what \<^verbatim>\<open>lc.result()\<close> returns or
  raises. The result is the exception that left the block, if any, and the values of the
  variables \<^verbatim>\<open>res\<close> and \<^verbatim>\<open>groups\<close> at that moment: \<^verbatim>\<open>res\<close> is assigned three times,
  and keeps the last value assigned when a later statement raises.
\<close>

definition ldap_try_body ::
  "string \<Rightarrow> pyexn + pyval \<Rightarrow> pyexn option \<times> pyval \<times> string list" where
  "ldap_try_body email lc_result =
     (case lc_result of
        Inl e \<Rightarrow> (Some e, PDict [], [])
      | Inr res1 \<Rightarrow>
     (case py_index res1 1 of
        Inl e \<Rightarrow> (Some e, res1, [])
      | Inr res2 \<Rightarrow>
     (case (case py_index res2 0 of Inl e \<Rightarrow> Inl e | Inr entry \<Rightarrow> py_index entry 1) of
        Inl e \<Rightarrow> (Some e, res2, [])
      | Inr res3 \<Rightarrow>
     (case (case py_key res3 ''mail'' of Inl e \<Rightarrow> Inl e | Inr mails \<Rightarrow> py_index mails 0) of
        Inl e \<Rightarrow> (Some e, res3, [])
      | Inr mail \<Rightarrow>
     (case py_decode mail of
        Inl e \<Rightarrow> (Some e, res3, [])
      | Inr mail_text \<Rightarrow>
          if py_lower mail_text = py_lower email
          then (case (case py_key res3 ''memberOf'' of
                        Inl e \<Rightarrow> Inl e
                      | Inr member_of \<Rightarrow> py_iter member_of) of
                  Inl e \<Rightarrow> (Some e, res3, [])
                | Inr dns \<Rightarrow>
                    (case collect_groups dns [] of (raised, groups) \<Rightarrow> (raised, res3, groups)))
          else (None, res3, []))))))"

text \<open>
  The dictionary display after the \<^verbatim>\<open>try\<close> block: the fields are evaluated in order
  and the first one to raise ends the function.
\<close>

fun ldap_fields :: "pyval \<Rightarrow> (string \<times> string) list \<Rightarrow> pyexn + resource" where
  "ldap_fields res [] = Inr []"
| "ldap_fields res ((name, key) # rest) =
     (case get_ldap_field_str res key of
        Inl e \<Rightarrow> Inl e
      | Inr v \<Rightarrow>
          (case ldap_fields res rest of
             Inl e \<Rightarrow> Inl e
           | Inr others \<Rightarrow> Inr ((name, v) # others)))"

definition LDAP_RECORD_FIELDS :: "(string \<times> string) list" where
  "LDAP_RECORD_FIELDS =
     [(''uidNumber'', ''uidNumber''),
      (''CommonName'', ''cn''),
      (''Firstname'', ''displayName''),
      (''Lastname'', ''displayName''),
      (''DisplayName'', ''displayName''),
      (''Building'', ''physicalDeliveryOfficeName''),
      (''Department'', ''department''),
      (''PersonID'', ''employeeID''),
      (''IdentityClass'', ''department'')]"

text \<open>
  What a resource lookup hands back: a record, or the Flask response
  \<^verbatim>\<open>jsonify([])\<close> that \<^verbatim>\<open>get_user_resources_ldap\<close> returns for an empty email.
\<close>

datatype lookup_result = Resource resource | JsonifyEmptyList

definition ldap_record :: "string \<Rightarrow> pyval \<Rightarrow> string list \<Rightarrow> pyexn + lookup_result" where
  "ldap_record email res groups =
     (case ldap_fields res LDAP_RECORD_FIELDS of
        Inl e \<Rightarrow> Inl e
      | Inr profile \<Rightarrow>
          Inr (Resource
                 ((''Group'', Values groups) # (''EmailAddress'', Values [email]) # profile)))"

text \<open>
  \<open>email\<close> is \<^verbatim>\<open>user.email\<close>. The handler \<^verbatim>\<open>except (IndexError, TypeError): pass\<close>
  lets every other exception through.
\<close>

definition get_user_resources_ldap :: "string \<Rightarrow> pyexn + pyval \<Rightarrow> pyexn + lookup_result" where
  "get_user_resources_ldap email lc_result =
     (if email = [] then Inr JsonifyEmptyList
      else (case ldap_try_body email lc_result of
              (raised, res, groups) \<Rightarrow>
                (case raised of
                   None \<Rightarrow> ldap_record email res groups
                 | Some e \<Rightarrow>
                     if e = IndexError \<or> e = TypeError then ldap_record email res groups
                     else Inl e)))"

section \<open>Identity extension protocol\<close>

text \<open>
  A need of Flask-Principal is a pair of a method and a value; \<^verbatim>\<open>UserNeed\<close> and
  \<^verbatim>\<open>RoleNeed\<close> fix the method.
\<close>

datatype need = Need string string

definition UserNeed :: "string \<Rightarrow> need" where
  "UserNeed v = Need ''id'' v"

definition RoleNeed :: "string \<Rightarrow> need" where
  "RoleNeed v = Need ''role'' v"

text \<open>
  The state the module reads and writes during a request:
  \<^item> \<open>identity_provides\<close>: the \<^verbatim>\<open>provides\<close> set of the identity at hand;
  \<^item> \<open>session_cern_provides\<close>: the session key \<^verbatim>\<open>identity.cern_provides\<close>
    (\<open>None\<close> when the key is not set);
  \<^item> \<open>session_cern_resource\<close>: the session key \<^verbatim>\<open>cern_resource\<close>;
  \<^item> \<open>remote_accounts\<close>, \<open>user_identities\<close>: the tables of linked accounts and
    of external-id links;
  \<^item> \<open>heap\<close>, \<open>next_addr\<close>: the Python list objects that hold group names, by
    address, and the next address to hand out;
  \<^item> \<open>rest_calls\<close>, \<open>ldap_calls\<close>: how many requests went to the REST resource and
    to the directory.
\<close>

record extra_data =
  xd_external_id :: "string option"
  xd_groups :: "nat option"
  xd_updated :: "string option"
  xd_extra :: "(string \<times> string option) list"

record remote_account =
  account_user_id :: nat
  account_client_id :: string
  account_extra_data :: extra_data

record world =
  identity_provides :: "need set"
  session_cern_provides :: "need set option"
  session_cern_resource :: "resource option"
  remote_accounts :: "remote_account list"
  user_identities :: "(string \<times> string) list"
  heap :: "nat \<Rightarrow> string list"
  next_addr :: nat
  rest_calls :: nat
  ldap_calls :: nat

text \<open>The claims \<^verbatim>\<open>extend_identity\<close> computes; \<open>email\<close> is \<^verbatim>\<open>current_user.email\<close>.\<close>

definition cern_provides :: "string \<Rightarrow> string list \<Rightarrow> need set" where
  "cern_provides email groups =
     set (UserNeed email # map (\<lambda>name. RoleNeed (py_lower name @ ''@cern.ch'')) groups)"

definition extend_identity :: "string \<Rightarrow> string list \<Rightarrow> world \<Rightarrow> world" where
  "extend_identity email groups w =
     (let provides = cern_provides email groups
      in w\<lparr>identity_provides := identity_provides w \<union> provides,
           session_cern_provides := Some provides\<rparr>)"

text \<open>
  \<^verbatim>\<open>session.pop(KEY, {})\<close> removes the key; when the key is not set the default is an
  empty \<^verbatim>\<open>dict\<close>, and \<^verbatim>\<open>set -= dict\<close> raises \<^verbatim>\<open>TypeError\<close>.
\<close>

definition disconnect_identity :: "world \<Rightarrow> (pyexn + unit) \<times> world" where
  "disconnect_identity w =
     (case session_cern_provides w of
        None \<Rightarrow> (Inl TypeError, w)
      | Some provides \<Rightarrow>
          (Inr (), w\<lparr>identity_provides := identity_provides w - provides,
                     session_cern_provides := None\<rparr>))"

text \<open>\<^verbatim>\<open>identity.provides.update(session.get(KEY, []))\<close>\<close>

definition on_identity_loaded :: "world \<Rightarrow> world" where
  "on_identity_loaded w =
     (case session_cern_provides w of
        None \<Rightarrow> w
      | Some provides \<Rightarrow> w\<lparr>identity_provides := identity_provides w \<union> provides\<rparr>)"

section \<open>Resource fetcher\<close>

text \<open>
  What a request finds around it: the clock, the signed-in user, the configuration, the
  registered remote applications and what the directory answers (\<^verbatim>\<open>lc.result()\<close>: a
  value, or an exception). A remote application is known by its name and consumer key;
  \<open>remote_answer\<close> is what \<^verbatim>\<open>remote.get(REMOTE_APP_RESOURCE_API_URL)\<close> returns.
\<close>

record remote_app =
  remote_name :: string
  consumer_key :: string
  remote_answer :: oauth_response

record config =
  cfg_hidden_groups :: "string list option"
  cfg_hidden_groups_re :: "regex list option"
  cfg_refresh_timedelta :: "timedelta option option"
  cfg_extra_data_serializer :: "(resource \<Rightarrow> pyexn + (string \<times> string option) list) option"
  cfg_consumer_key :: string

record env =
  utcnow :: datetime
  user_is_authenticated :: bool
  user_id :: nat
  user_email :: string
  app_config :: config
  remote_apps :: "remote_app list"
  lc_result :: "pyexn + pyval"

text \<open>
  The part of \<^verbatim>\<open>get_resource\<close> after the cache: the REST call, then the directory.
  \<open>remote\<close> is \<open>None\<close> when \<^verbatim>\<open>find_remote_by_client_id\<close> found no application.
  The directory is queried only for a non-empty email.
\<close>

definition get_resource_uncached ::
  "env \<Rightarrow> remote_app option \<Rightarrow> world \<Rightarrow> (pyexn + lookup_result) \<times> world" where
  "get_resource_uncached e remote w =
     (case remote of
        None \<Rightarrow> (Inl AttributeError, w)
      | Some rem \<Rightarrow>
          let response = remote_answer rem;
              w1 = w\<lparr>rest_calls := rest_calls w + 1\<rparr>
          in if status response = 200
             then (let dict_response = get_dict_from_response response
                   in (Inr (Resource dict_response),
                       w1\<lparr>session_cern_resource := Some dict_response\<rparr>))
             else if user_is_authenticated e
             then (get_user_resources_ldap (user_email e) (lc_result e),
                   if user_email e = [] then w1
                   else w1\<lparr>ldap_calls := ldap_calls w1 + 1\<rparr>)
             else (Inl (HTTPException 400), w1))"

text \<open>
  \<^verbatim>\<open>session.pop('cern_resource', None)\<close> empties the slot whatever it held; the value
  popped is returned when it is truthy, that is a non-empty \<^verbatim>\<open>dict\<close>.
\<close>

definition get_resource ::
  "env \<Rightarrow> remote_app option \<Rightarrow> world \<Rightarrow> (pyexn + lookup_result) \<times> world" where
  "get_resource e remote w =
     (let cached_resource = session_cern_resource w;
          w1 = w\<lparr>session_cern_resource := None\<rparr>
      in case cached_resource of
           None \<Rightarrow> get_resource_uncached e remote w1
         | Some r \<Rightarrow>
             if r \<noteq> [] then (Inr (Resource r), w1)
             else get_resource_uncached e remote w1)"

section \<open>Extra-data refresh engine\<close>

definition OAUTHCLIENT_CERN_REFRESH_TIMEDELTA :: timedelta where
  "OAUTHCLIENT_CERN_REFRESH_TIMEDELTA = minutes (- 5)"

definition fetch_extra_data :: "resource \<Rightarrow> pyexn + (string \<times> string option) list" where
  "fetch_extra_data resource =
     (case first_or_none resource ''PersonID'' of
        Inl e \<Rightarrow> Inl e
      | Inr person_id \<Rightarrow>
     (case first_or_none resource ''IdentityClass'' of
        Inl e \<Rightarrow> Inl e
      | Inr identity_class \<Rightarrow>
     (case first_or_none resource ''Department'' of
        Inl e \<Rightarrow> Inl e
      | Inr department \<Rightarrow>
          Inr [(''person_id'', person_id),
               (''identity_class'', identity_class),
               (''department'', department)])))"

text \<open>
  Modelled from the spec: \<^verbatim>\<open>RemoteAccount\<close> (\<^verbatim>\<open>invenio_oauthclient.models\<close>) is not
  among the source files. The hooks ``look up the linked account by (user, client
  credential)'': \<open>RemoteAccount_get\<close> is the account of that user and client, or
  \<open>None\<close> when there is none.
\<close>

definition RemoteAccount_get ::
  "remote_account list \<Rightarrow> nat \<Rightarrow> string \<Rightarrow> remote_account option" where
  "RemoteAccount_get accounts uid cid =
     find (\<lambda>a. account_user_id a = uid \<and> account_client_id a = cid) accounts"

text \<open>
  Modelled from the spec: \<^verbatim>\<open>account.delete()\<close> ``deletes the linked-account record''.
\<close>

definition RemoteAccount_delete :: "remote_account \<Rightarrow> remote_account list \<Rightarrow> remote_account list" where
  "RemoteAccount_delete account accounts =
     [a \<leftarrow> accounts. \<not> (account_user_id a = account_user_id account \<and>
                          account_client_id a = account_client_id account)]"

text \<open>
  Modelled from the spec: \<^verbatim>\<open>oauth_unlink_external_id\<close> (\<^verbatim>\<open>invenio_oauthclient.utils\<close>)
  is not among the source files; it ``removes the external-id link if present''. A link
  is the pair of the external id and the method.
\<close>

definition oauth_unlink_external_id ::
  "string \<Rightarrow> string \<Rightarrow> (string \<times> string) list \<Rightarrow> (string \<times> string) list" where
  "oauth_unlink_external_id ext_id ext_method links =
     [l \<leftarrow> links. l \<noteq> (ext_id, ext_method)]"

text \<open>
  \<^verbatim>\<open>extra_data.update(groups=..., updated=..., **extra)\<close>, the part for the fields the
  serializer gave.
\<close>

fun update_extra :: "(string \<times> string option) list \<Rightarrow> extra_data \<Rightarrow> extra_data" where
  "update_extra [] xd = xd"
| "update_extra ((k, v) # kvs) xd =
     update_extra kvs
       (if k = ''external_id'' then xd\<lparr>xd_external_id := v\<rparr>
        else xd\<lparr>xd_extra := AList.update k v (xd_extra xd)\<rparr>)"

definition set_extra_data :: "remote_account \<Rightarrow> extra_data \<Rightarrow> remote_account list \<Rightarrow> remote_account list" where
  "set_extra_data account xd accounts =
     map (\<lambda>a. if account_user_id a = account_user_id account \<and>
                  account_client_id a = account_client_id account
               then a\<lparr>account_extra_data := xd\<rparr> else a) accounts"

text \<open>
  \<^verbatim>\<open>account_groups_and_extra_data\<close>. The filtered groups are a new list object; its
  address is both stored under \<^verbatim>\<open>groups\<close> in the account's extra data and returned.
  \<^verbatim>\<open>resource['Group']\<close> raises on the response \<^verbatim>\<open>jsonify([])\<close> and on a record without
  the key; \<^verbatim>\<open>regexp.match(None)\<close> raises on the list \<^verbatim>\<open>[None]\<close>, which no producer of
  records puts under \<^verbatim>\<open>Group\<close>. A serializer that gives \<^verbatim>\<open>groups\<close> or \<^verbatim>\<open>updated\<close>
  makes \<^verbatim>\<open>update\<close> raise for the repeated keyword.
\<close>

definition account_groups_and_extra_data ::
  "env \<Rightarrow> remote_account \<Rightarrow> lookup_result \<Rightarrow> world \<Rightarrow> (pyexn + nat) \<times> world" where
  "account_groups_and_extra_data e account resource w =
     (let updated = utcnow e in
      case resource of
        JsonifyEmptyList \<Rightarrow> (Inl TypeError, w)
      | Resource r \<Rightarrow>
     (case map_of r ''Group'' of
        None \<Rightarrow> (Inl KeyError, w)
      | Some NoneList \<Rightarrow> (Inl TypeError, w)
      | Some (Values all_groups) \<Rightarrow>
          let groups = fetch_groups
                (config_get (cfg_hidden_groups (app_config e)) OAUTHCLIENT_CERN_HIDDEN_GROUPS)
                (config_get (cfg_hidden_groups_re (app_config e))
                   OAUTHCLIENT_CERN_HIDDEN_GROUPS_RE)
                all_groups;
              addr = next_addr w;
              w1 = w\<lparr>heap := (heap w)(addr := groups), next_addr := addr + 1\<rparr>
          in (case config_get (cfg_extra_data_serializer (app_config e)) fetch_extra_data r of
                Inl ex \<Rightarrow> (Inl ex, w1)
              | Inr extra \<Rightarrow>
                  if ''groups'' \<in> fst ` set extra \<or> ''updated'' \<in> fst ` set extra
                  then (Inl TypeError, w1)
                  else (Inr addr,
                        w1\<lparr>remote_accounts :=
                             set_extra_data account
                               (update_extra extra
                                  ((account_extra_data account)
                                     \<lparr>xd_groups := Some addr,
                                      xd_updated := Some (isoformat updated)\<rparr>))
                               (remote_accounts w1)\<rparr>))))"

section \<open>Account lifecycle hooks\<close>

definition find_remote_by_client_id :: "remote_app list \<Rightarrow> string \<Rightarrow> remote_app option" where
  "find_remote_by_client_id apps client_id =
     find (\<lambda>remote. remote_name remote = ''cern'' \<and> consumer_key remote = client_id) apps"

text \<open>
  The refresh inside \<^verbatim>\<open>on_identity_changed\<close>: \<open>groups\<close> is the address of the list
  read from the account, which \<^verbatim>\<open>groups.extend(...)\<close> changes in place.
\<close>

definition refresh_groups ::
  "env \<Rightarrow> remote_account \<Rightarrow> string \<Rightarrow> nat \<Rightarrow> world \<Rightarrow> (pyexn + unit) \<times> world" where
  "refresh_groups e account client_id groups w =
     (let remote = find_remote_by_client_id (remote_apps e) client_id in
      case get_resource e remote w of
        (Inl ex, w1) \<Rightarrow> (Inl ex, w1)
      | (Inr resource, w1) \<Rightarrow>
          (case account_groups_and_extra_data e account resource w1 of
             (Inl ex, w2) \<Rightarrow> (Inl ex, w2)
           | (Inr fetched, w2) \<Rightarrow>
               (Inr (), w2\<lparr>heap := (heap w2)(groups := heap w2 groups @ heap w2 fetched)\<rparr>)))"

text \<open>
  \<^verbatim>\<open>on_identity_changed\<close>; \<open>anonymous\<close> says whether the identity is an
  \<^verbatim>\<open>AnonymousIdentity\<close>. When the account has no \<^verbatim>\<open>groups\<close> yet, the default \<^verbatim>\<open>[]\<close>
  is a new list object.
\<close>

definition on_identity_changed :: "env \<Rightarrow> bool \<Rightarrow> world \<Rightarrow> (pyexn + unit) \<times> world" where
  "on_identity_changed e anonymous w =
     (if anonymous then (Inr (), w)
      else
        let client_id = cfg_consumer_key (app_config e) in
        case RemoteAccount_get (remote_accounts w) (user_id e) client_id of
          None \<Rightarrow> (Inr (), w)
        | Some account \<Rightarrow>
            let (groups, w1) =
                  (case xd_groups (account_extra_data account) of
                     Some addr \<Rightarrow> (addr, w)
                   | None \<Rightarrow>
                       (next_addr w,
                        w\<lparr>heap := (heap w)(next_addr w := []),
                          next_addr := next_addr w + 1\<rparr>));
                resources_last_updated = xd_updated (account_extra_data account);
                refresh_timedelta =
                  config_get (cfg_refresh_timedelta (app_config e))
                    (Some OAUTHCLIENT_CERN_REFRESH_TIMEDELTA)
            in case should_refresh_groups (utcnow e) resources_last_updated refresh_timedelta of
                 Inl ex \<Rightarrow> (Inl ex, w1)
               | Inr stale \<Rightarrow>
                   (case (if stale then refresh_groups e account client_id groups w1
                          else (Inr (), w1)) of
                      (Inl ex, w2) \<Rightarrow> (Inl ex, w2)
                    | (Inr u, w2) \<Rightarrow>
                        (Inr (), extend_identity (user_email e) (heap w2 groups) w2)))"

text \<open>The group list the persisted snapshot of an account holds.\<close>

definition snapshot_groups :: "world \<Rightarrow> nat \<Rightarrow> string \<Rightarrow> string list option" where
  "snapshot_groups w uid cid =
     (case RemoteAccount_get (remote_accounts w) uid cid of
        None \<Rightarrow> None
      | Some account \<Rightarrow>
          (case xd_groups (account_extra_data account) of
             None \<Rightarrow> None
           | Some addr \<Rightarrow> Some (heap w addr)))"

datatype handler_response = Unauthorized | Redirect string

text \<open>
  \<^verbatim>\<open>disconnect_handler\<close>. \<^verbatim>\<open>account.extra_data\<close> is read before \<^verbatim>\<open>if account\<close>: with
  no linked account, \<^verbatim>\<open>account\<close> is \<^verbatim>\<open>None\<close> and the attribute access raises.
\<close>

definition disconnect_handler ::
  "env \<Rightarrow> remote_app \<Rightarrow> world \<Rightarrow> (pyexn + handler_response) \<times> world" where
  "disconnect_handler e remote w =
     (if \<not> user_is_authenticated e then (Inr Unauthorized, w)
      else
        case RemoteAccount_get (remote_accounts w) (user_id e) (consumer_key remote) of
          None \<Rightarrow> (Inl AttributeError, w)
        | Some account \<Rightarrow>
            let external_id = xd_external_id (account_extra_data account);
                w1 = (case external_id of
                        None \<Rightarrow> w
                      | Some ext \<Rightarrow>
                          if ext \<noteq> []
                          then w\<lparr>user_identities :=
                                   oauth_unlink_external_id ext ''cern'' (user_identities w)\<rparr>
                          else w);
                w2 = w1\<lparr>remote_accounts := RemoteAccount_delete account (remote_accounts w1)\<rparr>
            in case disconnect_identity w2 of
                 (Inl ex, w3) \<Rightarrow> (Inl ex, w3)
               | (Inr u, w3) \<Rightarrow> (Inr (Redirect ''invenio_oauthclient_settings.index''), w3))"

section \<open>Example inputs\<close>

text \<open>
  A request of a signed-in user, \<^verbatim>\<open>a@b.com\<close>, at the clock reading \<open>now0\<close>, with the
  built-in configuration; a REST resource that answers 200 with three groups, and one
  that answers 500; a directory that finds one entry, and one that finds none.
\<close>

definition world0 :: world where
  "world0 = \<lparr>identity_provides = {}, session_cern_provides = None, session_cern_resource = None,
      remote_accounts = [], user_identities = [], heap = (\<lambda>a. []), next_addr = 0,
      rest_calls = 0, ldap_calls = 0\<rparr>"

definition config0 :: config where
  "config0 = \<lparr>cfg_hidden_groups = None, cfg_hidden_groups_re = None,
      cfg_refresh_timedelta = None, cfg_extra_data_serializer = None,
      cfg_consumer_key = ''key''\<rparr>"

definition no_entry :: pyval where
  "no_entry = PTuple [PInt 101, PList []]"

definition directory_entry :: pyval where
  "directory_entry =
     PDict [(''mail'', PList [PBytes ''A@B.com'']),
            (''memberOf'', PList [PBytes ''CN=GroupX,OU=e-groups,DC=cern,DC=ch'']),
            (''displayName'', PList [PBytes ''Ada B''])]"

definition one_entry :: pyval where
  "one_entry = PTuple [PInt 101, PList [PTuple [PBytes ''CN=ab,OU=Users'', directory_entry]]]"

definition two_groups :: oauth_response where
  "two_groups = \<lparr>status = 200, resp_code = Some 200,
     data = [\<lparr>Type = ''http://schemas.xmlsoap.org/claims/Group'', Value = ''admins''\<rparr>,
             \<lparr>Type = ''http://schemas.xmlsoap.org/claims/Group'', Value = ''users''\<rparr>]\<rparr>"

definition embedded_schema :: oauth_response where
  "embedded_schema = \<lparr>status = 200, resp_code = Some 200,
     data = [\<lparr>Type = ''xhttp://schemas.xmlsoap.org/claims/Group'', Value = ''admins''\<rparr>]\<rparr>"

definition working_remote :: remote_app where
  "working_remote = \<lparr>remote_name = ''cern'', consumer_key = ''key'',
      remote_answer = \<lparr>status = 200, resp_code = Some 200,
        data = [\<lparr>Type = ''http://schemas.xmlsoap.org/claims/Group'', Value = ''admins''\<rparr>,
                \<lparr>Type = ''http://schemas.xmlsoap.org/claims/Group'', Value = ''CERN Users''\<rparr>,
                \<lparr>Type = ''http://schemas.xmlsoap.org/claims/Group'', Value = ''users''\<rparr>]\<rparr>\<rparr>"

definition failing_remote :: remote_app where
  "failing_remote = \<lparr>remote_name = ''cern'', consumer_key = ''key'',
      remote_answer = \<lparr>status = 500, resp_code = Some 500, data = []\<rparr>\<rparr>"

definition env0 :: env where
  "env0 = \<lparr>utcnow = now0, user_is_authenticated = True, user_id = 1,
      user_email = ''a@b.com'', app_config = config0,
      remote_apps = [working_remote], lc_result = Inr one_entry\<rparr>"

text \<open>
  A linked account of that user, last refreshed ten minutes before \<open>now0\<close>, whose
  groups are the list at address 0; and a world that holds it, with the claims of an
  earlier extension in the session.
\<close>

definition account0 :: remote_account where
  "account0 = \<lparr>account_user_id = 1, account_client_id = ''key'',
      account_extra_data = \<lparr>xd_external_id = Some ''1234'', xd_groups = Some 0,
        xd_updated = Some ''2020-02-29T23:52:30'', xd_extra = []\<rparr>\<rparr>"

definition world1 :: world where
  "world1 = \<lparr>identity_provides = {Need ''id'' ''1'', RoleNeed ''old-group@cern.ch''},
      session_cern_provides = Some {RoleNeed ''old-group@cern.ch''},
      session_cern_resource = None,
      remote_accounts = [account0], user_identities = [(''1234'', ''cern'')],
      heap = (\<lambda>a. [])(0 := [''old-group'']), next_addr = 1,
      rest_calls = 0, ldap_calls = 0\<rparr>"

definition world_no_account :: world where
  "world_no_account = world1\<lparr>remote_accounts := []\<rparr>"

chapter \<open>Properties\<close>

section \<open>Group filter\<close>

subsection \<open>The matcher decides prefix matching\<close>

lemma star_cons_split:
  assumes "w \<in> star A" "w = c # x"
  shows "\<exists>u v. c # u \<in> A \<and> v \<in> star A \<and> x = u @ v"
  using assms
proof (induction arbitrary: x rule: star.induct)
  case star_nil
  then show ?case by simp
next
  case (star_app u v)
  show ?case
  proof (cases u)
    case Nil
    with star_app show ?thesis by simp
  next
    case (Cons a u')
    with star_app.prems have "a = c" "x = u' @ v" by simp_all
    with Cons star_app.hyps show ?thesis by blast
  qed
qed

lemma nullable_lang: "nullable r \<longleftrightarrow> [] \<in> lang r"
  by (induction r) (auto intro: star.star_nil)

lemma deriv_lang: "w \<in> lang (deriv c r) \<longleftrightarrow> c # w \<in> lang r"
proof (induction r arbitrary: w)
  case (Cat r s)
  show ?case
  proof
    assume "w \<in> lang (deriv c (Cat r s))"
    then consider (l) u v where "w = u @ v" "u \<in> lang (deriv c r)" "v \<in> lang s"
      | (r) "nullable r" "w \<in> lang (deriv c s)"
      by (auto split: if_splits)
    then show "c # w \<in> lang (Cat r s)"
    proof cases
      case l
      then have "c # u \<in> lang r" using Cat.IH(1) by simp
      with l show ?thesis by (metis (mono_tags, lifting) append_Cons lang.simps(6) mem_Collect_eq)
    next
      case r
      then have "[] \<in> lang r" "c # w \<in> lang s" using Cat.IH(2) nullable_lang by simp_all
      then show ?thesis by (metis (mono_tags, lifting) append_Nil lang.simps(6) mem_Collect_eq)
    qed
  next
    assume "c # w \<in> lang (Cat r s)"
    then obtain u v where uv: "c # w = u @ v" "u \<in> lang r" "v \<in> lang s" by auto
    show "w \<in> lang (deriv c (Cat r s))"
    proof (cases u)
      case Nil
      with uv have "nullable r" "w \<in> lang (deriv c s)" using Cat.IH(2) nullable_lang by simp_all
      then show ?thesis by simp
    next
      case (Cons a u')
      with uv have "u' \<in> lang (deriv c r)" "w = u' @ v" using Cat.IH(1) by simp_all
      with uv(3) show ?thesis by auto
    qed
  qed
next
  case (Star r)
  show ?case
  proof
    assume "w \<in> lang (deriv c (Star r))"
    then obtain u v where "w = u @ v" "u \<in> lang (deriv c r)" "v \<in> star (lang r)" by auto
    then have "c # u \<in> lang r" using Star.IH by simp
    then have "(c # u) @ v \<in> star (lang r)" using \<open>v \<in> star (lang r)\<close> by (rule star.star_app)
    with \<open>w = u @ v\<close> show "c # w \<in> lang (Star r)" by simp
  next
    assume "c # w \<in> lang (Star r)"
    then have "c # w \<in> star (lang r)" by simp
    from star_cons_split[OF this refl]
    obtain u v where "c # u \<in> lang r" "v \<in> star (lang r)" "w = u @ v" by blast
    then show "w \<in> lang (deriv c (Star r))" using Star.IH by auto
  qed
qed (auto simp: in_range_def)

lemma re_match_iff: "re_match r s \<longleftrightarrow> (\<exists>p. prefix p s \<and> p \<in> lang r)"
proof (induction s arbitrary: r)
  case Nil
  then show ?case by (simp add: nullable_lang)
next
  case (Cons c cs)
  show ?case
  proof
    assume "re_match r (c # cs)"
    then consider "nullable r" | "re_match (deriv c r) cs" by auto
    then show "\<exists>p. prefix p (c # cs) \<and> p \<in> lang r"
    proof cases
      case 1
      then have "prefix [] (c # cs)" "[] \<in> lang r" by (simp_all add: nullable_lang)
      then show ?thesis by blast
    next
      case 2
      then obtain p where "prefix p cs" "p \<in> lang (deriv c r)" using Cons.IH by blast
      then have "prefix (c # p) (c # cs)" "c # p \<in> lang r" by (simp_all add: deriv_lang)
      then show ?thesis by blast
    qed
  next
    assume "\<exists>p. prefix p (c # cs) \<and> p \<in> lang r"
    then obtain p where p: "prefix p (c # cs)" "p \<in> lang r" by blast
    show "re_match r (c # cs)"
    proof (cases p)
      case Nil
      with p show ?thesis by (simp add: nullable_lang)
    next
      case (Cons a p')
      with p have "a = c" "prefix p' cs" "p' \<in> lang (deriv c r)" by (simp_all add: deriv_lang)
      then show ?thesis using Cons.IH by auto
    qed
  qed
qed

subsection \<open>fetch_groups\<close>

lemma fetch_groups_re_match:
  "fetch_groups hidden_groups hidden_groups_re groups =
     [g \<leftarrow> groups. g \<notin> set hidden_groups \<and> \<not> (\<exists>r \<in> set hidden_groups_re. re_match r g)]"
  by (auto simp: fetch_groups_def Let_def intro!: filter_cong)

text \<open>
  Claim C6. For every input list, \<open>fetch_groups\<close> returns the input with the groups
  that equal an entry of the exact deny-list removed, and the groups of which some prefix
  is matched by a pattern of the regex deny-list removed. The result is a filter of the
  input, so the remaining groups keep their relative order; the empty input gives the
  empty output; the function is total on lists of strings.
\<close>

theorem fetch_groups_denylists:
  "fetch_groups hidden_groups hidden_groups_re groups =
     [g \<leftarrow> groups. g \<notin> set hidden_groups \<and>
        \<not> (\<exists>r \<in> set hidden_groups_re. \<exists>p. prefix p g \<and> p \<in> lang r)]
   \<and> fetch_groups hidden_groups hidden_groups_re [] = []"
  by (simp add: fetch_groups_re_match re_match_iff)

theorem fetch_groups_denylists_witness:
  "fetch_groups OAUTHCLIENT_CERN_HIDDEN_GROUPS OAUTHCLIENT_CERN_HIDDEN_GROUPS_RE
     [''cms-members'', ''CERN Users'', ''building-40 staff'', ''Users by Letter A'',
      ''my building-40'', ''atlas'']
   = [''cms-members'', ''my building-40'', ''atlas'']"
proof -
  let ?G = "[''cms-members'', ''CERN Users'', ''building-40 staff'', ''Users by Letter A'',
      ''my building-40'', ''atlas'']"
  have "fetch_groups OAUTHCLIENT_CERN_HIDDEN_GROUPS OAUTHCLIENT_CERN_HIDDEN_GROUPS_RE ?G =
     [g \<leftarrow> ?G. g \<notin> set OAUTHCLIENT_CERN_HIDDEN_GROUPS \<and>
        \<not> (\<exists>r \<in> set OAUTHCLIENT_CERN_HIDDEN_GROUPS_RE. re_match r g)]"
    using fetch_groups_denylists[of OAUTHCLIENT_CERN_HIDDEN_GROUPS
        OAUTHCLIENT_CERN_HIDDEN_GROUPS_RE ?G]
    by (simp only: re_match_iff)
  then show ?thesis
    by (simp add: OAUTHCLIENT_CERN_HIDDEN_GROUPS_def OAUTHCLIENT_CERN_HIDDEN_GROUPS_RE_def
        Plus_def in_range_def)
qed

section \<open>Clock\<close>

subsection \<open>The calendar\<close>

lemma div_succ:
  fixes p k :: int
  assumes k: "0 < k"
  shows "(p + 1) div k = p div k + (if (p + 1) mod k = 0 then 1 else 0)"
proof -
  define q where "q = p div k"
  define r where "r = p mod k"
  have p: "p = k * q + r" and r: "0 \<le> r" "r < k"
    using k by (simp_all add: q_def r_def)
  show ?thesis
  proof (cases "r + 1 < k")
    case True
    have e: "p + 1 = k * q + (r + 1)" using p by simp
    have d: "(p + 1) div k = q" using r True by (intro int_div_pos_eq[OF e]) simp_all
    have m: "(p + 1) mod k = r + 1" using r True by (intro int_mod_pos_eq[OF e]) simp_all
    from d m r show ?thesis by (simp add: q_def)
  next
    case False
    with r have rk: "r + 1 = k" by simp
    have e: "p + 1 = k * (q + 1) + 0" using p rk by (simp add: algebra_simps)
    have d: "(p + 1) div k = q + 1" using k by (intro int_div_pos_eq[OF e]) simp_all
    have m: "(p + 1) mod k = 0" using k by (intro int_mod_pos_eq[OF e]) simp_all
    from d m show ?thesis by (simp add: q_def)
  qed
qed

lemma div_pred:
  fixes y k :: int
  assumes "0 < k"
  shows "y div k = (y - 1) div k + (if y mod k = 0 then 1 else 0)"
  using div_succ[OF assms, of "y - 1"] by simp

lemma dby_step:
  "days_before_year (y + 1) = days_before_year y + (if is_leap y then 366 else 365)"
proof -
  define a4 a100 a400 where "a4 = (y - 1) div 4" and "a100 = (y - 1) div 100"
    and "a400 = (y - 1) div 400"
  define b4 b100 b400 where "b4 \<longleftrightarrow> y mod 4 = 0" and "b100 \<longleftrightarrow> y mod 100 = 0"
    and "b400 \<longleftrightarrow> y mod 400 = 0"
  have d4: "y div 4 = a4 + (if b4 then 1 else 0)"
    unfolding a4_def b4_def by (rule div_pred) simp
  have d100: "y div 100 = a100 + (if b100 then 1 else 0)"
    unfolding a100_def b100_def by (rule div_pred) simp
  have d400: "y div 400 = a400 + (if b400 then 1 else 0)"
    unfolding a400_def b400_def by (rule div_pred) simp
  have m1: "b4" if "b100"
  proof -
    from that have "100 dvd y" unfolding b100_def by (simp only: mod_eq_0_iff_dvd)
    moreover have "(4::int) dvd 100" by (rule dvdI[of _ _ 25]) simp
    ultimately have "4 dvd y" by (rule dvd_trans[rotated])
    then show ?thesis unfolding b4_def by (simp only: mod_eq_0_iff_dvd)
  qed
  have m2: "b100" if "b400"
  proof -
    from that have "400 dvd y" unfolding b400_def by (simp only: mod_eq_0_iff_dvd)
    moreover have "(100::int) dvd 400" by (rule dvdI[of _ _ 4]) simp
    ultimately have "100 dvd y" by (rule dvd_trans[rotated])
    then show ?thesis unfolding b100_def by (simp only: mod_eq_0_iff_dvd)
  qed
  have l: "is_leap y \<longleftrightarrow> b4 \<and> (\<not> b100 \<or> b400)"
    unfolding is_leap_def b4_def b100_def b400_def by (rule refl)
  have "y + 1 - 1 = y" by simp
  then have e1: "days_before_year (y + 1) = y * 365 + y div 4 - y div 100 + y div 400"
    unfolding days_before_year_def Let_def by (simp only:)
  have e0: "days_before_year y = (y - 1) * 365 + a4 - a100 + a400"
    unfolding days_before_year_def Let_def a4_def a100_def a400_def by (rule refl)
  show ?thesis
    unfolding e1 e0 l d4 d100 d400 using m1 m2 by (cases b4; cases b100; cases b400; simp)
qed

lemma dby_strict: "days_before_year y < days_before_year (y + 1)"
  unfolding dby_step[of y] by simp

lemma dby_mono: "y1 \<le> y2 \<Longrightarrow> days_before_year y1 \<le> days_before_year y2"
proof (induction "nat (y2 - y1)" arbitrary: y2)
  case 0
  then show ?case by simp
next
  case (Suc k)
  then have "k = nat ((y2 - 1) - y1)" "y1 \<le> y2 - 1" by linarith+
  then have "days_before_year y1 \<le> days_before_year (y2 - 1)" using Suc.hyps(1) by blast
  also have "\<dots> < days_before_year y2" using dby_strict[of "y2 - 1"] by simp
  finally show ?case by simp
qed

lemma dby_10000: "days_before_year 10000 = 3652059"
  by (simp add: days_before_year_def)

lemma year_from_spec:
  "days_before_year y0 < n \<Longrightarrow> n \<le> MAXORDINAL \<Longrightarrow> y0 \<le> MAXYEAR \<Longrightarrow>
     y0 \<le> year_from n y0 \<and> year_from n y0 \<le> MAXYEAR \<and>
     days_before_year (year_from n y0) < n \<and>
     n \<le> days_before_year (year_from n y0 + 1)"
proof (induction n y0 rule: year_from.induct)
  case (1 n y)
  show ?case
  proof (cases "y < MAXYEAR \<and> days_before_year (y + 1) < n")
    case True
    then have "y + 1 \<le> MAXYEAR" by simp
    with "1.IH"[OF True] True "1.prems"(2)
    have "y + 1 \<le> year_from n (y + 1) \<and> year_from n (y + 1) \<le> MAXYEAR \<and>
      days_before_year (year_from n (y + 1)) < n \<and>
      n \<le> days_before_year (year_from n (y + 1) + 1)" by blast
    moreover have "year_from n y = year_from n (y + 1)"
      using True by (subst year_from.simps) simp
    ultimately show ?thesis by simp
  next
    case False
    have e: "year_from n y = y"
      by (subst year_from.simps, subst if_not_P[OF False]) (rule refl)
    have "n \<le> days_before_year (y + 1)"
    proof (cases "y < MAXYEAR")
      case True
      with False show ?thesis by simp
    next
      case False
      with "1.prems"(3) have "y + 1 = 10000" by (simp add: MAXYEAR_def)
      with "1.prems"(2) show ?thesis by (simp add: dby_10000 MAXORDINAL_def)
    qed
    with e "1.prems" show ?thesis by simp
  qed
qed

lemma year_start:
  assumes "1 \<le> n"
  shows "days_before_year ((n - 1) div 366 + 1) < n"
proof -
  define q where "q = (n - 1) div 366"
  define a b c where "a = q div 4" and "b = q div 100" and "c = q div 400"
  have q0: "0 \<le> q" unfolding q_def using assms by (simp add: pos_imp_zdiv_nonneg_iff)
  have "366 * q + (n - 1) mod 366 = n - 1" unfolding q_def by (rule mult_div_mod_eq)
  moreover have "0 \<le> (n - 1) mod 366" by simp
  ultimately have q1: "366 * q \<le> n - 1" by linarith
  have a: "a \<le> q" unfolding a_def using zdiv_mono2[of q 1 4] q0 by simp
  have c: "c \<le> b" unfolding b_def c_def using zdiv_mono2[of q 100 400] q0 by simp
  have "q + 1 - 1 = q" by simp
  then have "days_before_year (q + 1) = q * 365 + a - b + c"
    unfolding days_before_year_def Let_def a_def b_def c_def by (simp only:)
  with q1 a c show ?thesis unfolding q_def[symmetric] by linarith
qed

lemma dbm_step:
  assumes "1 \<le> m" "m \<le> 12"
  shows "days_before_month y m < days_before_month y (m + 1)"
proof -
  from assms have "m = 1 \<or> m = 2 \<or> m = 3 \<or> m = 4 \<or> m = 5 \<or> m = 6 \<or> m = 7
    \<or> m = 8 \<or> m = 9 \<or> m = 10 \<or> m = 11 \<or> m = 12" by presburger
  then show ?thesis by (elim disjE) (simp_all add: days_before_month_def)
qed

lemma dbm_mono:
  assumes "1 \<le> m1" "m1 \<le> m2" "m2 \<le> 13"
  shows "days_before_month y m1 \<le> days_before_month y m2"
  using assms
proof (induction "nat (m2 - m1)" arbitrary: m2)
  case 0
  then show ?case by simp
next
  case (Suc k)
  then have "k = nat ((m2 - 1) - m1)" "m1 \<le> m2 - 1" "m2 - 1 \<le> 13" by linarith+
  then have "days_before_month y m1 \<le> days_before_month y (m2 - 1)"
    using Suc.hyps(1) Suc.prems(1) by blast
  also have "\<dots> < days_before_month y m2"
    using dbm_step[of "m2 - 1" y] Suc.prems \<open>m1 \<le> m2 - 1\<close> by simp
  finally show ?case by simp
qed

lemma dbm_first: "days_before_month y 1 = 0"
  by (simp add: days_before_month_def)

lemma dbm_last: "days_before_month y 13 = (if is_leap y then 366 else 365)"
  by (simp add: days_before_month_def)

lemma month_from_spec:
  "1 \<le> m \<Longrightarrow> m \<le> 12 \<Longrightarrow> days_before_month y m < k \<Longrightarrow> k \<le> days_before_month y 13 \<Longrightarrow>
     m \<le> month_from y k m \<and> month_from y k m \<le> 12 \<and>
     days_before_month y (month_from y k m) < k \<and>
     k \<le> days_before_month y (month_from y k m + 1)"
proof (induction y k m rule: month_from.induct)
  case (1 y k m)
  show ?case
  proof (cases "m < 12 \<and> days_before_month y (m + 1) < k")
    case True
    then have "month_from y k m = month_from y k (m + 1)"
      by (subst month_from.simps) simp
    moreover have "m + 1 \<le> month_from y k (m + 1) \<and> month_from y k (m + 1) \<le> 12 \<and>
     days_before_month y (month_from y k (m + 1)) < k \<and>
     k \<le> days_before_month y (month_from y k (m + 1) + 1)"
      using "1.IH"[OF True] True "1.prems" by simp
    ultimately show ?thesis by simp
  next
    case False
    have e: "month_from y k m = m"
      by (subst month_from.simps, subst if_not_P[OF False]) (rule refl)
    from False "1.prems" have "k \<le> days_before_month y (m + 1)"
      by (cases "m = 12") auto
    with e "1.prems" show ?thesis by simp
  qed
qed

lemma dby_1: "days_before_year 1 = 0"
  by (simp add: days_before_year_def)

lemma ord2ymd_props:
  assumes "1 \<le> n" "n \<le> MAXORDINAL" "ord2ymd n = (y, m, d)"
  shows "1 \<le> y \<and> y \<le> 9999 \<and> 1 \<le> m \<and> m \<le> 12 \<and> 1 \<le> d \<and> d \<le> days_in_month y m \<and>
         ymd2ord y m d = n"
proof -
  define y0 where "y0 = (n - 1) div 366 + 1"
  define k where "k = n - days_before_year y"
  have y: "y = year_from n y0"
    using assms(3) by (simp add: ord2ymd_def Let_def y0_def)
  have m: "m = month_from y k 1"
    using assms(3) unfolding ord2ymd_def Let_def y0_def[symmetric] y[symmetric] k_def by simp
  have d: "d = k - days_before_month y m"
    using assms(3) unfolding ord2ymd_def Let_def y0_def[symmetric] y[symmetric]
      k_def[symmetric] m[symmetric] by simp
  have "1 \<le> y0" unfolding y0_def using assms(1) by (simp add: pos_imp_zdiv_nonneg_iff)
  have "(n - 1) div 366 \<le> 3652058 div 366"
    using assms(2) by (intro zdiv_mono1) (simp_all add: MAXORDINAL_def)
  then have "y0 \<le> MAXYEAR" by (simp add: y0_def MAXYEAR_def)
  have ys: "y0 \<le> y" "y \<le> MAXYEAR" "days_before_year y < n" "n \<le> days_before_year (y + 1)"
    using year_from_spec[OF year_start[OF assms(1)] assms(2)] \<open>y0 \<le> MAXYEAR\<close>
    unfolding y y0_def by simp_all
  have "y < 10000" using ys(2) by (simp add: MAXYEAR_def)
  have k1: "days_before_month y 1 < k" using ys(3) by (simp add: k_def dbm_first)
  have k2: "k \<le> days_before_month y 13"
    using ys(4) unfolding dby_step[of y] dbm_last k_def by simp
  have ms: "1 \<le> m" "m \<le> 12" "days_before_month y m < k" "k \<le> days_before_month y (m + 1)"
    using month_from_spec[OF _ _ k1 k2] unfolding m by simp_all
  show ?thesis
    using \<open>1 \<le> y0\<close> ys(1) \<open>y < 10000\<close> ms
    by (simp add: d days_in_month_def ymd2ord_def k_def)
qed

lemma ymd2ord_bounds:
  assumes "valid_date y m d"
  shows "days_before_year y < ymd2ord y m d" "ymd2ord y m d \<le> days_before_year (y + 1)"
proof -
  from assms have m: "1 \<le> m" "m \<le> 12" and d: "1 \<le> d" "d \<le> days_in_month y m"
    by (simp_all add: valid_date_def)
  have a: "0 \<le> days_before_month y m"
    using dbm_mono[of 1 m y] m by (simp add: dbm_first)
  have b: "days_before_month y (m + 1) \<le> days_before_month y 13"
    using dbm_mono[of "m + 1" 13 y] m by simp
  show "days_before_year y < ymd2ord y m d" using a d by (simp add: ymd2ord_def)
  have "days_before_month y m + d \<le> days_before_month y 13"
    using b d by (simp add: days_in_month_def)
  then show "ymd2ord y m d \<le> days_before_year (y + 1)"
    unfolding dby_step[of y] dbm_last ymd2ord_def by (cases "is_leap y") simp_all
qed

lemma ymd2ord_less:
  assumes a: "valid_date ya ma da" and b: "valid_date yb mb db"
    and l: "ya < yb \<or> (ya = yb \<and> (ma < mb \<or> (ma = mb \<and> da < db)))"
  shows "ymd2ord ya ma da < ymd2ord yb mb db"
proof -
  consider (y) "ya < yb" | (m) "ya = yb" "ma < mb" | (d) "ya = yb" "ma = mb" "da < db"
    using l by blast
  then show ?thesis
  proof cases
    case y
    then have "days_before_year (ya + 1) \<le> days_before_year yb" by (intro dby_mono) simp
    with ymd2ord_bounds(2)[OF a] ymd2ord_bounds(1)[OF b] show ?thesis by linarith
  next
    case m
    from a b have "1 \<le> ma" "mb \<le> 12" "da \<le> days_in_month ya ma" "1 \<le> db"
      by (simp_all add: valid_date_def)
    moreover have "days_before_month ya (ma + 1) \<le> days_before_month ya mb"
      using m(2) \<open>1 \<le> ma\<close> \<open>mb \<le> 12\<close> by (intro dbm_mono) simp_all
    ultimately show ?thesis using m(1) by (simp add: ymd2ord_def days_in_month_def)
  next
    case d
    then show ?thesis by (simp add: ymd2ord_def)
  qed
qed

lemma ymd2ord_less_iff:
  assumes a: "valid_date ya ma da" and b: "valid_date yb mb db"
  shows "ymd2ord ya ma da < ymd2ord yb mb db \<longleftrightarrow>
         (ya < yb \<or> (ya = yb \<and> (ma < mb \<or> (ma = mb \<and> da < db))))"
proof
  assume lt: "ymd2ord ya ma da < ymd2ord yb mb db"
  show "ya < yb \<or> (ya = yb \<and> (ma < mb \<or> (ma = mb \<and> da < db)))"
  proof (rule ccontr)
    assume n: "\<not> ?thesis"
    then consider "ya = yb \<and> ma = mb \<and> da = db"
      | "yb < ya \<or> (yb = ya \<and> (mb < ma \<or> (mb = ma \<and> db < da)))" by linarith
    then show False
    proof cases
      case 1
      with lt show False by simp
    next
      case 2
      from ymd2ord_less[OF b a 2] lt show False by simp
    qed
  qed
next
  assume "ya < yb \<or> (ya = yb \<and> (ma < mb \<or> (ma = mb \<and> da < db)))"
  then show "ymd2ord ya ma da < ymd2ord yb mb db" by (rule ymd2ord_less[OF a b])
qed

subsection \<open>Chronological order is field-wise order\<close>

lemma radix_less_iff:
  fixes B q1 q2 r1 r2 :: int
  assumes "0 \<le> r1" "r1 < B" "0 \<le> r2" "r2 < B"
  shows "q1 * B + r1 < q2 * B + r2 \<longleftrightarrow> q1 < q2 \<or> (q1 = q2 \<and> r1 < r2)"
proof -
  have B: "0 < B" using assms by linarith
  have *: "q * B + r < q' * B + r'" if "q < q'" "r < B" "0 \<le> r'" for q q' r r' :: int
  proof -
    from that(1) have "q + 1 \<le> q'" by simp
    then have "(q + 1) * B \<le> q' * B" using B by (intro mult_right_mono) simp_all
    then have "q * B + B \<le> q' * B" by (simp add: algebra_simps)
    with that(2,3) show ?thesis by linarith
  qed
  show ?thesis
  proof (cases q1 q2 rule: linorder_cases)
    case less
    with *[OF less assms(2) assms(3)] show ?thesis by simp
  next
    case equal
    then show ?thesis by simp
  next
    case greater
    with *[OF greater assms(4) assms(1)] show ?thesis by simp
  qed
qed

lemma radix_eq_iff:
  fixes B q1 q2 r1 r2 :: int
  assumes "0 \<le> r1" "r1 < B" "0 \<le> r2" "r2 < B"
  shows "q1 * B + r1 = q2 * B + r2 \<longleftrightarrow> q1 = q2 \<and> r1 = r2"
proof
  assume e: "q1 * B + r1 = q2 * B + r2"
  have "\<not> (q1 < q2 \<or> (q1 = q2 \<and> r1 < r2))"
    using radix_less_iff[OF assms, of q1 q2] e by simp
  moreover have "\<not> (q2 < q1 \<or> (q2 = q1 \<and> r2 < r1))"
    using radix_less_iff[OF assms(3,4) assms(1,2), of q2 q1] e by simp
  ultimately show "q1 = q2 \<and> r1 = r2" by linarith
next
  assume "q1 = q2 \<and> r1 = r2"
  then show "q1 * B + r1 = q2 * B + r2" by simp
qed

lemma lex3_eq:
  fixes a b c d e f :: int
  assumes "\<not> (a < b \<or> (a = b \<and> (c < d \<or> (c = d \<and> e < f))))"
    and "\<not> (b < a \<or> (b = a \<and> (d < c \<or> (d = c \<and> f < e))))"
  shows "a = b \<and> c = d \<and> e = f"
  using assms by linarith

lemma valid_datetime_date: "valid_datetime a \<Longrightarrow> valid_date (year a) (month a) (day a)"
  by (simp add: valid_datetime_def valid_date_def)

lemma toordinal_less_iff:
  assumes "valid_datetime a" "valid_datetime b"
  shows "toordinal a < toordinal b \<longleftrightarrow>
     year a < year b \<or> (year a = year b \<and>
     (month a < month b \<or> (month a = month b \<and> day a < day b)))"
  unfolding toordinal_def
  by (rule ymd2ord_less_iff[OF valid_datetime_date[OF assms(1)] valid_datetime_date[OF assms(2)]])

lemma toordinal_eq_iff:
  assumes "valid_datetime a" "valid_datetime b"
  shows "toordinal a = toordinal b \<longleftrightarrow>
     year a = year b \<and> month a = month b \<and> day a = day b"
proof
  assume e: "toordinal a = toordinal b"
  show "year a = year b \<and> month a = month b \<and> day a = day b"
    by (rule lex3_eq) (use toordinal_less_iff[OF assms] toordinal_less_iff[OF assms(2,1)] e
      in simp_all)
next
  assume "year a = year b \<and> month a = month b \<and> day a = day b"
  then show "toordinal a = toordinal b" by (simp add: toordinal_def)
qed

lemma second_of_day_bounds:
  assumes "valid_datetime a"
  shows "0 \<le> second_of_day a" "second_of_day a < 86400"
  using assms by (simp_all add: valid_datetime_def second_of_day_def)

lemma second_of_day_less_iff:
  assumes a: "valid_datetime a" and b: "valid_datetime b"
  shows "second_of_day a < second_of_day b \<longleftrightarrow>
     hour a < hour b \<or> (hour a = hour b \<and>
     (minute a < minute b \<or> (minute a = minute b \<and> second a < second b)))"
proof -
  have m: "hour a * 60 + minute a < hour b * 60 + minute b \<longleftrightarrow>
      hour a < hour b \<or> (hour a = hour b \<and> minute a < minute b)"
    using a b by (intro radix_less_iff) (simp_all add: valid_datetime_def)
  have e: "hour a * 60 + minute a = hour b * 60 + minute b \<longleftrightarrow>
      hour a = hour b \<and> minute a = minute b"
    using a b by (intro radix_eq_iff) (simp_all add: valid_datetime_def)
  have "second_of_day a < second_of_day b \<longleftrightarrow>
     hour a * 60 + minute a < hour b * 60 + minute b \<or>
     (hour a * 60 + minute a = hour b * 60 + minute b \<and> second a < second b)"
    unfolding second_of_day_def
    using a b by (intro radix_less_iff) (simp_all add: valid_datetime_def)
  then show ?thesis unfolding m e by blast
qed

lemma second_of_day_eq_iff:
  assumes a: "valid_datetime a" and b: "valid_datetime b"
  shows "second_of_day a = second_of_day b \<longleftrightarrow>
     hour a = hour b \<and> minute a = minute b \<and> second a = second b"
proof
  assume e: "second_of_day a = second_of_day b"
  show "hour a = hour b \<and> minute a = minute b \<and> second a = second b"
    by (rule lex3_eq) (use second_of_day_less_iff[OF a b] second_of_day_less_iff[OF b a] e
      in simp_all)
next
  assume "hour a = hour b \<and> minute a = minute b \<and> second a = second b"
  then show "second_of_day a = second_of_day b" by (simp add: second_of_day_def)
qed

lemma total_microseconds_alt:
  "total_microseconds a = (toordinal a * 86400 + second_of_day a) * 1000000 + microsecond a"
  by (simp add: total_microseconds_def second_of_day_def algebra_simps)

lemma total_microseconds_less_iff:
  assumes a: "valid_datetime a" and b: "valid_datetime b"
  shows "total_microseconds a < total_microseconds b \<longleftrightarrow> datetime_lt a b"
proof -
  let ?Q = "\<lambda>x. toordinal x * 86400 + second_of_day x"
  have u: "total_microseconds a < total_microseconds b \<longleftrightarrow>
      ?Q a < ?Q b \<or> (?Q a = ?Q b \<and> microsecond a < microsecond b)"
    unfolding total_microseconds_alt
    using a b by (intro radix_less_iff) (simp_all add: valid_datetime_def)
  have ql: "?Q a < ?Q b \<longleftrightarrow> toordinal a < toordinal b \<or>
      (toordinal a = toordinal b \<and> second_of_day a < second_of_day b)"
    by (intro radix_less_iff second_of_day_bounds a b)
  have qe: "?Q a = ?Q b \<longleftrightarrow> toordinal a = toordinal b \<and> second_of_day a = second_of_day b"
    by (intro radix_eq_iff second_of_day_bounds a b)
  show ?thesis
    unfolding u ql qe toordinal_less_iff[OF a b] toordinal_eq_iff[OF a b]
      second_of_day_less_iff[OF a b] second_of_day_eq_iff[OF a b] datetime_lt_def
    by blast
qed

subsection \<open>Lexical order of ISO strings is field-wise order\<close>

lemma str_lt_irrefl: "\<not> str_lt x x"
  by (induction x) simp_all

lemma str_lt_same_length:
  "length u = length v \<Longrightarrow> str_lt (u @ x) (v @ y) \<longleftrightarrow> str_lt u v \<or> (u = v \<and> str_lt x y)"
proof (induction u v rule: list_induct2)
  case Nil
  then show ?case by simp
next
  case (Cons a u b v)
  then show ?case by auto
qed

lemma digit_code: "0 \<le> n \<Longrightarrow> n < 10 \<Longrightarrow> (of_char (digit n) :: nat) = 48 + nat n"
  by (simp add: digit_def nat_add_distrib)

lemma digit_less_iff:
  assumes "0 \<le> a" "a < 10" "0 \<le> b" "b < 10"
  shows "(of_char (digit a) :: nat) < of_char (digit b) \<longleftrightarrow> a < b"
  using assms by (auto simp: digit_code)

lemma digit_eq_iff:
  assumes "0 \<le> a" "a < 10" "0 \<le> b" "b < 10"
  shows "digit a = digit b \<longleftrightarrow> a = b"
proof
  assume "digit a = digit b"
  then have "(of_char (digit a) :: nat) = of_char (digit b)" by simp
  then show "a = b" using assms by (simp add: digit_code)
qed simp

lemma length_zero_padded: "length (zero_padded w n) = w"
  by (induction w arbitrary: n) simp_all

lemma div10_less_iff:
  fixes n m :: int
  shows "n < m \<longleftrightarrow> n div 10 < m div 10 \<or> (n div 10 = m div 10 \<and> n mod 10 < m mod 10)"
proof -
  have n: "n = n div 10 * 10 + n mod 10" and m: "m = m div 10 * 10 + m mod 10" by simp_all
  have "n div 10 * 10 + n mod 10 < m div 10 * 10 + m mod 10 \<longleftrightarrow>
      n div 10 < m div 10 \<or> (n div 10 = m div 10 \<and> n mod 10 < m mod 10)"
    by (intro radix_less_iff) simp_all
  then show ?thesis by simp
qed

lemma zero_padded_less_iff:
  "0 \<le> n \<Longrightarrow> n < 10 ^ w \<Longrightarrow> 0 \<le> m \<Longrightarrow> m < 10 ^ w \<Longrightarrow>
     (str_lt (zero_padded w n) (zero_padded w m) \<longleftrightarrow> n < m) \<and>
     (zero_padded w n = zero_padded w m \<longleftrightarrow> n = m)"
proof (induction w arbitrary: n m)
  case 0
  then show ?case by simp
next
  case (Suc w)
  have q: "k div 10 < K" if "k < 10 * K" for k K :: int
    using that by linarith
  have b: "0 \<le> n div 10" "n div 10 < 10 ^ w" "0 \<le> m div 10" "m div 10 < 10 ^ w"
    using Suc.prems by (simp_all add: pos_imp_zdiv_nonneg_iff q)
  note IH = Suc.IH[OF b]
  have d: "0 \<le> n mod 10" "n mod 10 < 10" "0 \<le> m mod 10" "m mod 10 < 10" by simp_all
  have l: "str_lt (zero_padded (Suc w) n) (zero_padded (Suc w) m) \<longleftrightarrow>
      n div 10 < m div 10 \<or> (n div 10 = m div 10 \<and> n mod 10 < m mod 10)"
    using IH digit_less_iff[OF d] digit_eq_iff[OF d]
    by (simp add: str_lt_same_length length_zero_padded)
  have e: "zero_padded (Suc w) n = zero_padded (Suc w) m \<longleftrightarrow>
      n div 10 = m div 10 \<and> n mod 10 = m mod 10"
    using IH digit_eq_iff[OF d] by (simp add: length_zero_padded)
  have e': "n div 10 = m div 10 \<and> n mod 10 = m mod 10 \<longleftrightarrow> n = m"
    by (metis mult_div_mod_eq)
  show ?case unfolding l e e' using div10_less_iff[of n m] by simp
qed

lemma str_lt_zero_padded_append:
  assumes "0 \<le> n" "n < 10 ^ w" "0 \<le> m" "m < 10 ^ w"
  shows "str_lt (zero_padded w n @ x) (zero_padded w m @ y) \<longleftrightarrow>
     n < m \<or> (n = m \<and> str_lt x y)"
  using zero_padded_less_iff[OF assms]
  by (simp add: str_lt_same_length length_zero_padded)

lemma str_lt_fraction:
  assumes "0 \<le> a" "a < 1000000" "0 \<le> b" "b < 1000000"
  shows "str_lt (fraction a) (fraction b) \<longleftrightarrow> a < b"
proof -
  have "str_lt (zero_padded 6 a) (zero_padded 6 b) \<longleftrightarrow> a < b"
    using zero_padded_less_iff[of a 6 b] assms by simp
  then show ?thesis using assms by (auto simp: fraction_def)
qed

lemma isoformat_alt:
  "isoformat d =
     zero_padded 4 (year d) @ CHR ''-'' # zero_padded 2 (month d) @ CHR ''-'' #
     zero_padded 2 (day d) @ CHR ''T'' # zero_padded 2 (hour d) @ CHR '':'' #
     zero_padded 2 (minute d) @ CHR '':'' # zero_padded 2 (second d) @
     fraction (microsecond d)"
  by (simp add: isoformat_def)

lemma str_lt_sep: "str_lt (c # x) (c # y) \<longleftrightarrow> str_lt x y"
  by simp

lemma str_lt_isoformat:
  assumes a: "valid_datetime a" and b: "valid_datetime b"
  shows "str_lt (isoformat a) (isoformat b) \<longleftrightarrow> datetime_lt a b"
proof -
  have dim: "days_in_month y m \<le> 31" for y m
    by (simp add: days_in_month_def days_before_month_def)
  have ba: "0 \<le> year a" "year a < 10 ^ 4" "0 \<le> month a" "month a < 10 ^ 2"
    "0 \<le> day a" "day a < 10 ^ 2" "0 \<le> hour a" "hour a < 10 ^ 2"
    "0 \<le> minute a" "minute a < 10 ^ 2" "0 \<le> second a" "second a < 10 ^ 2"
    "0 \<le> microsecond a" "microsecond a < 1000000"
    using a dim[of "year a" "month a"] by (simp_all add: valid_datetime_def)
  have bb: "0 \<le> year b" "year b < 10 ^ 4" "0 \<le> month b" "month b < 10 ^ 2"
    "0 \<le> day b" "day b < 10 ^ 2" "0 \<le> hour b" "hour b < 10 ^ 2"
    "0 \<le> minute b" "minute b < 10 ^ 2" "0 \<le> second b" "second b < 10 ^ 2"
    "0 \<le> microsecond b" "microsecond b < 1000000"
    using b dim[of "year b" "month b"] by (simp_all add: valid_datetime_def)
  show ?thesis
    unfolding isoformat_alt datetime_lt_def
      str_lt_zero_padded_append[OF ba(1,2) bb(1,2)] str_lt_sep
      str_lt_zero_padded_append[OF ba(3,4) bb(3,4)]
      str_lt_zero_padded_append[OF ba(5,6) bb(5,6)]
      str_lt_zero_padded_append[OF ba(7,8) bb(7,8)]
      str_lt_zero_padded_append[OF ba(9,10) bb(9,10)]
      str_lt_zero_padded_append[OF ba(11,12) bb(11,12)]
      str_lt_fraction[OF ba(13,14) bb(13,14)]
    by (rule refl)
qed

subsection \<open>Adding a timedelta\<close>

lemma split_day:
  fixes t :: int
  defines "R \<equiv> t mod 86400000000"
  defines "ds \<equiv> R div 1000000"
  defines "rem \<equiv> ds mod 3600"
  shows "0 \<le> ds div 3600 \<and> ds div 3600 < 24 \<and> 0 \<le> rem div 60 \<and> rem div 60 < 60 \<and>
         0 \<le> rem mod 60 \<and> rem mod 60 < 60 \<and> 0 \<le> t mod 1000000 \<and> t mod 1000000 < 1000000 \<and>
         ((t div 86400000000 * 86400 + (ds div 3600) * 3600 + (rem div 60) * 60 + rem mod 60)
            * 1000000 + t mod 1000000 = t)"
proof -
  define dd where "dd = t div 86400000000"
  define u where "u = R mod 1000000"
  define h where "h = ds div 3600"
  define mi where "mi = rem div 60"
  define s where "s = rem mod 60"
  have t: "t = dd * 86400000000 + R" unfolding dd_def R_def by simp
  have R: "0 \<le> R" "R < 86400000000" unfolding R_def by simp_all
  have Rs: "R = ds * 1000000 + u" unfolding ds_def u_def by simp
  have u: "0 \<le> u" "u < 1000000" unfolding u_def by simp_all
  have "(1000000::int) dvd 86400000000" by (rule dvdI[of _ _ 86400]) simp
  then have ut: "u = t mod 1000000" unfolding u_def R_def by (rule mod_mod_cancel)
  have ds: "0 \<le> ds" "ds < 86400" using R Rs u by linarith+
  have dsh: "ds = h * 3600 + rem" unfolding h_def rem_def by simp
  have rem: "0 \<le> rem" "rem < 3600" unfolding rem_def by simp_all
  have h: "0 \<le> h" "h < 24" using ds dsh rem by linarith+
  have rm: "rem = mi * 60 + s" unfolding mi_def s_def by simp
  have s: "0 \<le> s" "s < 60" unfolding s_def by simp_all
  have mi: "0 \<le> mi" "mi < 60" using rem rm s by linarith+
  have "(dd * 86400 + h * 3600 + mi * 60 + s) * 1000000 + u = dd * 86400000000 + R"
    by (simp add: Rs dsh rm algebra_simps)
  then have "(dd * 86400 + h * 3600 + mi * 60 + s) * 1000000 + u = t"
    using t by simp
  then show ?thesis
    using h mi s u unfolding ut dd_def h_def mi_def s_def by simp
qed

lemma datetime_add_Inr:
  assumes "datetime_add d (Microseconds us) = Inr r"
  shows "valid_datetime r" and "total_microseconds r = total_microseconds d + us"
proof -
  define t where "t = total_microseconds d + us"
  define dd where "dd = t div 86400000000"
  define ds where "ds = (t mod 86400000000) div 1000000"
  define rem where "rem = ds mod 3600"
  obtain y m dy where o: "ord2ymd dd = (y, m, dy)" by (cases "ord2ymd dd") auto
  have rng: "0 < dd \<and> dd \<le> MAXORDINAL"
    using assms by (simp add: datetime_add_def Let_def dd_def t_def split: if_splits)
  have r: "r = \<lparr>year = y, month = m, day = dy, hour = ds div 3600, minute = rem div 60,
                second = rem mod 60, microsecond = t mod 1000000\<rparr>"
    using assms rng o
    by (simp add: datetime_add_def Let_def dd_def ds_def rem_def t_def split: if_splits)
  have p: "1 \<le> y \<and> y \<le> 9999 \<and> 1 \<le> m \<and> m \<le> 12 \<and> 1 \<le> dy \<and> dy \<le> days_in_month y m \<and>
         ymd2ord y m dy = dd"
    using rng by (intro ord2ymd_props[OF _ _ o]) simp_all
  note sd = split_day[of t, folded ds_def, folded rem_def, folded dd_def]
  show "valid_datetime r" using p sd by (simp add: r valid_datetime_def)
  have "total_microseconds r =
      (dd * 86400 + (ds div 3600) * 3600 + (rem div 60) * 60 + rem mod 60) * 1000000
        + t mod 1000000"
    using p by (simp add: r total_microseconds_def toordinal_def)
  also have "\<dots> = t" using sd by simp
  finally show "total_microseconds r = total_microseconds d + us" by (simp add: t_def)
qed

lemma toordinal_range:
  assumes "valid_datetime d"
  shows "1 \<le> toordinal d" "toordinal d \<le> MAXORDINAL"
proof -
  have v: "valid_date (year d) (month d) (day d)" by (rule valid_datetime_date[OF assms])
  have "days_before_year 1 \<le> days_before_year (year d)"
    using assms by (intro dby_mono) (simp add: valid_datetime_def)
  with ymd2ord_bounds(1)[OF v] show "1 \<le> toordinal d" by (simp add: toordinal_def dby_1)
  have "days_before_year (year d + 1) \<le> days_before_year 10000"
    using assms by (intro dby_mono) (simp add: valid_datetime_def)
  with ymd2ord_bounds(2)[OF v] show "toordinal d \<le> MAXORDINAL"
    by (simp add: toordinal_def dby_10000 MAXORDINAL_def)
qed

lemma total_microseconds_div:
  assumes "valid_datetime d"
  shows "total_microseconds d div 86400000000 = toordinal d"
proof -
  have b: "0 \<le> second_of_day d * 1000000 + microsecond d"
    "second_of_day d * 1000000 + microsecond d < 86400000000"
    using second_of_day_bounds[OF assms] assms by (simp_all add: valid_datetime_def)
  have "total_microseconds d =
      86400000000 * toordinal d + (second_of_day d * 1000000 + microsecond d)"
    by (simp add: total_microseconds_alt algebra_simps)
  then show ?thesis using b by (rule int_div_pos_eq)
qed

lemma datetime_add_between:
  assumes v: "valid_datetime d" and a: "datetime_add d (Microseconds a) = Inr r"
    and ab: "a \<le> b" "b \<le> 0"
  shows "\<exists>r'. datetime_add d (Microseconds b) = Inr r'"
proof -
  have lo: "0 < (total_microseconds d + a) div 86400000000"
    using a unfolding datetime_add_def Let_def by (simp split: if_splits)
  have "(total_microseconds d + a) div 86400000000 \<le> (total_microseconds d + b) div 86400000000"
    using ab(1) by (intro zdiv_mono1) simp_all
  moreover have "(total_microseconds d + b) div 86400000000 \<le> total_microseconds d div 86400000000"
    using ab(2) by (intro zdiv_mono1) simp_all
  ultimately have "0 < (total_microseconds d + b) div 86400000000 \<and>
      (total_microseconds d + b) div 86400000000 \<le> MAXORDINAL"
    using lo toordinal_range(2)[OF v] unfolding total_microseconds_div[OF v] by linarith
  then show ?thesis
    unfolding datetime_add_def Let_def by (simp split: prod.splits)
qed

subsection \<open>should_refresh_groups\<close>

lemma should_refresh_groups_Some:
  "should_refresh_groups now (Some stamp) w =
     (case (case w of None \<Rightarrow> Inr now | Some td \<Rightarrow> datetime_add now td) of
        Inl e \<Rightarrow> Inl e
      | Inr th \<Rightarrow> Inr (\<not> str_lt (isoformat th) stamp))"
  by (simp add: should_refresh_groups_def py_gt_def Let_def split: option.splits sum.splits)

lemma isoformat_earlier:
  assumes "valid_datetime now"
    and "datetime_add now (Microseconds a) = Inr x"
    and "datetime_add now (Microseconds b) = Inr y"
  shows "str_lt (isoformat x) (isoformat y) \<longleftrightarrow> a < b"
proof -
  have "str_lt (isoformat x) (isoformat y) \<longleftrightarrow> total_microseconds x < total_microseconds y"
    using datetime_add_Inr(1)[OF assms(2)] datetime_add_Inr(1)[OF assms(3)]
    by (simp add: str_lt_isoformat total_microseconds_less_iff)
  then show ?thesis
    unfolding datetime_add_Inr(2)[OF assms(2)] datetime_add_Inr(2)[OF assms(3)] by simp
qed

text \<open>
  Claim C8. For a clock reading \<open>now\<close> and a previous timestamp that is a string:
  whenever \<open>now + window\<close> is a datetime \<open>th\<close> (and likewise with no window, where
  the threshold is \<open>now\<close> itself), \<open>should_refresh_groups\<close> returns \<open>False\<close> exactly
  when the timestamp is lexically greater than \<open>isoformat th\<close>, and \<open>True\<close> otherwise.
  With a window of minus 5 minutes, the ISO string of \<open>now\<close> minus 1 minute gives
  \<open>False\<close> and the ISO string of \<open>now\<close> minus 10 minutes gives \<open>True\<close>.
\<close>

theorem should_refresh_groups_window:
  assumes "valid_datetime now"
  shows "(\<forall>stamp td th. datetime_add now td = Inr th \<longrightarrow>
            (should_refresh_groups now (Some stamp) (Some td) = Inr False
               \<longleftrightarrow> str_lt (isoformat th) stamp) \<and>
            (should_refresh_groups now (Some stamp) (Some td) = Inr True
               \<longleftrightarrow> \<not> str_lt (isoformat th) stamp))
       \<and> (\<forall>stamp. (should_refresh_groups now (Some stamp) None = Inr False
               \<longleftrightarrow> str_lt (isoformat now) stamp) \<and>
            (should_refresh_groups now (Some stamp) None = Inr True
               \<longleftrightarrow> \<not> str_lt (isoformat now) stamp))
       \<and> (\<forall>th lu. datetime_add now (minutes (- 5)) = Inr th \<longrightarrow>
            datetime_add now (minutes (- 1)) = Inr lu \<longrightarrow>
            should_refresh_groups now (Some (isoformat lu)) (Some (minutes (- 5))) = Inr False)
       \<and> (\<forall>lu. datetime_add now (minutes (- 10)) = Inr lu \<longrightarrow>
            should_refresh_groups now (Some (isoformat lu)) (Some (minutes (- 5))) = Inr True)"
proof (intro conjI allI impI)
  fix stamp td th
  assume "datetime_add now td = Inr th"
  then show "should_refresh_groups now (Some stamp) (Some td) = Inr False
      \<longleftrightarrow> str_lt (isoformat th) stamp"
    and "should_refresh_groups now (Some stamp) (Some td) = Inr True
      \<longleftrightarrow> \<not> str_lt (isoformat th) stamp"
    by (simp_all add: should_refresh_groups_Some)
next
  fix stamp
  show "should_refresh_groups now (Some stamp) None = Inr False
      \<longleftrightarrow> str_lt (isoformat now) stamp"
    and "should_refresh_groups now (Some stamp) None = Inr True
      \<longleftrightarrow> \<not> str_lt (isoformat now) stamp"
    by (simp_all add: should_refresh_groups_Some)
next
  fix th lu
  assume th: "datetime_add now (minutes (- 5)) = Inr th"
    and lu: "datetime_add now (minutes (- 1)) = Inr lu"
  have "str_lt (isoformat th) (isoformat lu)"
    using isoformat_earlier[OF assms th[unfolded minutes_def] lu[unfolded minutes_def]] by simp
  then show "should_refresh_groups now (Some (isoformat lu)) (Some (minutes (- 5))) = Inr False"
    by (simp add: should_refresh_groups_Some th)
next
  fix lu
  assume lu: "datetime_add now (minutes (- 10)) = Inr lu"
  obtain th where th: "datetime_add now (minutes (- 5)) = Inr th"
    using datetime_add_between[OF assms lu[unfolded minutes_def], of "- 5 * 60000000"]
    by (auto simp: minutes_def)
  have "\<not> str_lt (isoformat th) (isoformat lu)"
    using isoformat_earlier[OF assms th[unfolded minutes_def] lu[unfolded minutes_def]] by simp
  then show "should_refresh_groups now (Some (isoformat lu)) (Some (minutes (- 5))) = Inr True"
    by (simp add: should_refresh_groups_Some th)
qed

lemma now0_valid: "valid_datetime now0"
  by (simp add: now0_def valid_datetime_def days_in_month_def days_before_month_def is_leap_def)

lemma now0_total: "total_microseconds now0 = 63718704150000000"
  by (simp add: now0_def total_microseconds_def toordinal_def ymd2ord_def days_before_year_def
      days_before_month_def is_leap_def)

lemma ord_737484: "ord2ymd 737484 = (2020, 2, 29)"
  by code_simp

lemma now0_minus5:
  "datetime_add now0 (minutes (- 5)) =
     Inr \<lparr>year = 2020, month = 2, day = 29, hour = 23, minute = 57, second = 30, microsecond = 0\<rparr>"
  by (simp add: datetime_add_def minutes_def now0_total MAXORDINAL_def ord_737484)

lemma ord_737485: "ord2ymd 737485 = (2020, 3, 1)"
  by code_simp

lemma now0_minus1:
  "datetime_add now0 (minutes (- 1)) =
     Inr \<lparr>year = 2020, month = 3, day = 1, hour = 0, minute = 1, second = 30, microsecond = 0\<rparr>"
  by (simp add: datetime_add_def minutes_def now0_total MAXORDINAL_def ord_737485)

lemma now0_minus10:
  "datetime_add now0 (minutes (- 10)) =
     Inr \<lparr>year = 2020, month = 2, day = 29, hour = 23, minute = 52, second = 30, microsecond = 0\<rparr>"
  by (simp add: datetime_add_def minutes_def now0_total MAXORDINAL_def ord_737484)

lemma isoformat_examples:
  "isoformat \<lparr>year = 2020, month = 3, day = 1, hour = 0, minute = 1, second = 30, microsecond = 0\<rparr>
     = ''2020-03-01T00:01:30''"
  "isoformat \<lparr>year = 2020, month = 2, day = 29, hour = 23, minute = 52, second = 30, microsecond = 0\<rparr>
     = ''2020-02-29T23:52:30''"
  by code_simp+

theorem should_refresh_groups_window_witness:
  "valid_datetime now0 \<and>
   should_refresh_groups now0 (Some ''2020-03-01T00:01:30'') (Some (minutes (- 5))) = Inr False \<and>
   should_refresh_groups now0 (Some ''2020-02-29T23:52:30'') (Some (minutes (- 5))) = Inr True"
proof -
  note w = should_refresh_groups_window[OF now0_valid]
  have fresh: "should_refresh_groups now0
      (Some (isoformat \<lparr>year = 2020, month = 3, day = 1, hour = 0, minute = 1, second = 30,
         microsecond = 0\<rparr>)) (Some (minutes (- 5))) = Inr False"
    using w now0_minus5 now0_minus1 by blast
  have stale: "should_refresh_groups now0
      (Some (isoformat \<lparr>year = 2020, month = 2, day = 29, hour = 23, minute = 52, second = 30,
         microsecond = 0\<rparr>)) (Some (minutes (- 5))) = Inr True"
    using w now0_minus10 by blast
  from fresh stale now0_valid show ?thesis by (simp only: isoformat_examples simp_thms)
qed

text \<open>
  Claim C1. With no previous timestamp the function does not return \<open>True\<close>: the
  comparison of \<^verbatim>\<open>None\<close> with the threshold string raises \<^verbatim>\<open>TypeError\<close> (or the
  threshold itself overflows), whatever the window. The branch meant for a missing
  timestamp tests the wrong variable.
\<close>

theorem should_refresh_groups_None_raises:
  "should_refresh_groups now None w \<noteq> Inr True \<and>
   should_refresh_groups now None None = Inl TypeError \<and>
   should_refresh_groups now0 None (Some (minutes (- 5))) = Inl TypeError"
  by (simp add: should_refresh_groups_def py_gt_def Let_def now0_minus5
      split: option.splits sum.splits)
section \<open>Identity extension protocol\<close>

lemma extend_identity_fields:
  "identity_provides (extend_identity email groups w) =
     identity_provides w \<union> cern_provides email groups"
  "session_cern_provides (extend_identity email groups w) = Some (cern_provides email groups)"
  by (simp_all add: extend_identity_def Let_def)

lemma cern_provides_image:
  "cern_provides email groups =
     insert (UserNeed email) ((\<lambda>name. RoleNeed (py_lower name @ ''@cern.ch'')) ` set groups)"
  by (simp add: cern_provides_def)

text \<open>
  Claim C3, as amended. \<open>extend_identity\<close> followed at once by \<open>disconnect_identity\<close>
  succeeds and leaves the identity's claim set equal to its state before the extension
  minus the derived claims, and the cache cleared; the claim set is restored when it
  held none of the derived claims before. Whenever the session role cache is set,
  \<open>disconnect_identity\<close> removes exactly the cached claims and clears the cache.
\<close>

theorem extend_then_disconnect:
  "(\<exists>w'. disconnect_identity (extend_identity email groups w) = (Inr (), w') \<and>
      identity_provides w' = identity_provides w - cern_provides email groups \<and>
      session_cern_provides w' = None \<and>
      (identity_provides w \<inter> cern_provides email groups = {} \<longrightarrow>
         identity_provides w' = identity_provides w))
   \<and> (\<forall>cached. session_cern_provides w = Some cached \<longrightarrow>
         disconnect_identity w =
           (Inr (), w\<lparr>identity_provides := identity_provides w - cached,
                      session_cern_provides := None\<rparr>))"
  by (auto simp: disconnect_identity_def extend_identity_def Let_def)

text \<open>
  The round trip as claim C3 states it fails for an identity that already provides one
  of the derived claims: the claim is gone after the disconnect.
\<close>

theorem extend_then_disconnect_counterexample:
  "identity_provides
     (snd (disconnect_identity
        (extend_identity ''u@cern.ch'' [''Admins'']
           (world0\<lparr>identity_provides := {RoleNeed ''admins@cern.ch''}\<rparr>))))
   \<noteq> identity_provides (world0\<lparr>identity_provides := {RoleNeed ''admins@cern.ch''}\<rparr>)"
  by code_simp

theorem extend_then_disconnect_witness:
  "identity_provides (world0\<lparr>identity_provides := {Need ''id'' ''7''}\<rparr>)
      \<inter> cern_provides ''u@cern.ch'' [''Admins''] = {} \<and>
   session_cern_provides
      (extend_identity ''u@cern.ch'' [''Admins''] (world0\<lparr>identity_provides := {Need ''id'' ''7''}\<rparr>))
     = Some (cern_provides ''u@cern.ch'' [''Admins'']) \<and>
   identity_provides
     (snd (disconnect_identity
        (extend_identity ''u@cern.ch'' [''Admins'']
           (world0\<lparr>identity_provides := {Need ''id'' ''7''}\<rparr>))))
     = {Need ''id'' ''7''}"
proof -
  let ?w = "world0\<lparr>identity_provides := {Need ''id'' ''7''}\<rparr>"
  have d: "identity_provides ?w \<inter> cern_provides ''u@cern.ch'' [''Admins''] = {}"
    by (simp add: world0_def cern_provides_def UserNeed_def RoleNeed_def)
  from extend_then_disconnect[of "''u@cern.ch''" "[''Admins'']" ?w] d
  obtain w' where "disconnect_identity (extend_identity ''u@cern.ch'' [''Admins''] ?w) = (Inr (), w')"
    "identity_provides w' = identity_provides ?w" by blast
  then show ?thesis using d by (simp add: extend_identity_fields world0_def)
qed

text \<open>
  Claim C7. After two extensions in a row the session role cache is exactly the claim of
  the current user together with the role claims of the second group list, whatever the
  first list was; the disconnect that follows removes those claims from the identity and
  no others.
\<close>

theorem extend_twice_replaces_cache:
  "session_cern_provides (extend_identity email2 groups2 (extend_identity email1 groups1 w)) =
     Some (insert (UserNeed email2)
             ((\<lambda>name. RoleNeed (py_lower name @ ''@cern.ch'')) ` set groups2))
   \<and> disconnect_identity (extend_identity email2 groups2 (extend_identity email1 groups1 w)) =
       (Inr (),
        (extend_identity email2 groups2 (extend_identity email1 groups1 w))
          \<lparr>identity_provides :=
             identity_provides (extend_identity email2 groups2 (extend_identity email1 groups1 w))
               - (insert (UserNeed email2)
                    ((\<lambda>name. RoleNeed (py_lower name @ ''@cern.ch'')) ` set groups2)),
           session_cern_provides := None\<rparr>)"
  by (simp add: disconnect_identity_def extend_identity_fields cern_provides_image)

theorem extend_twice_replaces_cache_witness:
  "session_cern_provides
     (extend_identity ''u@cern.ch'' [''B''] (extend_identity ''u@cern.ch'' [''A''] world0)) =
     Some {UserNeed ''u@cern.ch'', RoleNeed ''b@cern.ch''}
   \<and> identity_provides
       (snd (disconnect_identity
          (extend_identity ''u@cern.ch'' [''B''] (extend_identity ''u@cern.ch'' [''A''] world0))))
     = {RoleNeed ''a@cern.ch''}"
proof -
  have l: "py_lower ''A'' = ''a''" "py_lower ''B'' = ''b''"
    by code_simp+
  have n: "RoleNeed ''a@cern.ch'' \<noteq> RoleNeed ''b@cern.ch''"
    "RoleNeed ''a@cern.ch'' \<noteq> UserNeed ''u@cern.ch''"
    by (simp_all add: RoleNeed_def UserNeed_def)
  show ?thesis
    using extend_twice_replaces_cache[of "''u@cern.ch''" "[''B'']" "''u@cern.ch''" "[''A'']" world0] n
    by (auto simp: l cern_provides_image extend_identity_fields world0_def)
qed

section \<open>Resource normalizer\<close>

lemma map_of_append_value:
  "map_of (append_value k v r) k' =
     (if k' = k
      then Some (case map_of r k of
                   None \<Rightarrow> Values [v]
                 | Some NoneList \<Rightarrow> NoneList
                 | Some (Values vs) \<Rightarrow> Values (vs @ [v]))
      else map_of r k')"
  by (simp add: append_value_def update_conv')

lemma map_of_fold_append_value:
  "map_of (fold (\<lambda>i result. append_value (f i) (Value i) result) items []) k =
     (if [i \<leftarrow> items. f i = k] = [] then None
      else Some (Values (map Value [i \<leftarrow> items. f i = k])))"
proof (induction items rule: rev_induct)
  case Nil
  then show ?case by simp
next
  case (snoc x xs)
  show ?case
  proof (cases "f x = k")
    case True
    then show ?thesis using snoc by (simp add: map_of_append_value)
  next
    case False
    then have "k \<noteq> f x" by blast
    then show ?thesis using snoc by (simp add: map_of_append_value)
  qed
qed

lemma replace_with_empty_Nil: "replace_with_empty old [] = []"
  by (subst replace_with_empty.simps) simp

lemma replace_with_empty_no_occurrence:
  "\<not> (\<exists>u v. s = u @ old @ v) \<Longrightarrow> replace_with_empty old s = s"
proof (induction s)
  case Nil
  then show ?case by (simp add: replace_with_empty_Nil)
next
  case (Cons c s)
  have np: "\<not> prefix old (c # s)"
  proof
    assume "prefix old (c # s)"
    then obtain v where "c # s = old @ v" by (auto simp: prefix_def)
    then have "c # s = [] @ old @ v" by simp
    with Cons.prems show False by blast
  qed
  have "\<not> (\<exists>u v. s = u @ old @ v)"
  proof
    assume "\<exists>u v. s = u @ old @ v"
    then obtain u v where "s = u @ old @ v" by blast
    then have "c # s = (c # u) @ old @ v" by simp
    with Cons.prems show False by blast
  qed
  then have "replace_with_empty old s = s" by (rule Cons.IH)
  then show ?case using np by (subst replace_with_empty.simps) simp
qed

lemma replace_with_empty_prefix:
  "old \<noteq> [] \<Longrightarrow> replace_with_empty old (old @ s) = replace_with_empty old s"
  by (subst replace_with_empty.simps) simp

lemma schema_nonempty: "REMOTE_APP_RESOURCE_SCHEMA \<noteq> []"
  by (simp add: REMOTE_APP_RESOURCE_SCHEMA_def)

text \<open>
  Claim C9, as amended. \<open>get_dict_from_response\<close> returns the empty record when the
  underlying response's code is greater than 400. Otherwise it maps each claim's type,
  with every occurrence of the schema URI removed, to the list of the values of that
  type in arrival order. For a type that is the schema URI followed by a name free of
  the URI, this is the type with its prefix stripped. Two \<^verbatim>\<open>Group\<close> claims with the
  values \<^verbatim>\<open>admins\<close> and \<^verbatim>\<open>users\<close> give the record \<^verbatim>\<open>{Group: [admins, users]}\<close>.
\<close>

theorem get_dict_from_response_spec:
  "(\<forall>code. resp_code response = Some code \<longrightarrow> code > 400 \<longrightarrow>
        get_dict_from_response response = [])
   \<and> ((resp_code response = None \<or> (\<exists>code. resp_code response = Some code \<and> code \<le> 400)) \<longrightarrow>
        (\<forall>k. map_of (get_dict_from_response response) k =
           (if [i \<leftarrow> data response.
                  replace_with_empty REMOTE_APP_RESOURCE_SCHEMA (Type i) = k] = []
            then None
            else Some (Values (map Value
                   [i \<leftarrow> data response.
                      replace_with_empty REMOTE_APP_RESOURCE_SCHEMA (Type i) = k])))))
   \<and> (\<forall>name. \<not> (\<exists>u v. name = u @ REMOTE_APP_RESOURCE_SCHEMA @ v) \<longrightarrow>
        replace_with_empty REMOTE_APP_RESOURCE_SCHEMA (REMOTE_APP_RESOURCE_SCHEMA @ name) = name
        \<and> strip_schema_prefix (REMOTE_APP_RESOURCE_SCHEMA @ name) = name)
   \<and> get_dict_from_response two_groups = [(''Group'', Values [''admins'', ''users''])]"
proof (intro conjI allI impI)
  fix code
  assume "resp_code response = Some code" "code > 400"
  then show "get_dict_from_response response = []" by (simp add: get_dict_from_response_def)
next
  fix k
  assume "resp_code response = None \<or> (\<exists>code. resp_code response = Some code \<and> code \<le> 400)"
  then have "\<not> (case resp_code response of None \<Rightarrow> False | Some code \<Rightarrow> code > 400)"
    by (auto split: option.splits)
  then show "map_of (get_dict_from_response response) k =
           (if [i \<leftarrow> data response.
                  replace_with_empty REMOTE_APP_RESOURCE_SCHEMA (Type i) = k] = []
            then None
            else Some (Values (map Value
                   [i \<leftarrow> data response.
                      replace_with_empty REMOTE_APP_RESOURCE_SCHEMA (Type i) = k])))"
    unfolding get_dict_from_response_def
    by (simp only: if_False map_of_fold_append_value)
next
  fix name
  assume n: "\<not> (\<exists>u v. name = u @ REMOTE_APP_RESOURCE_SCHEMA @ v)"
  show "replace_with_empty REMOTE_APP_RESOURCE_SCHEMA (REMOTE_APP_RESOURCE_SCHEMA @ name) = name"
    by (simp add: replace_with_empty_prefix[OF schema_nonempty]
        replace_with_empty_no_occurrence[OF n])
  show "strip_schema_prefix (REMOTE_APP_RESOURCE_SCHEMA @ name) = name"
    by (simp add: strip_schema_prefix_def)
next
  show "get_dict_from_response two_groups = [(''Group'', Values [''admins'', ''users''])]"
    by code_simp
qed

text \<open>
  Claim C9 as stated, with the prefix stripped, fails for a type that holds the schema
  URI after its first character: the source removes the URI there too.
\<close>

theorem get_dict_from_response_counterexample:
  "get_dict_from_response embedded_schema \<noteq> normalize_by_prefix embedded_schema"
  by code_simp

lemma embedded_schema_keys:
  "get_dict_from_response embedded_schema = [(''xGroup'', Values [''admins''])]"
  "normalize_by_prefix embedded_schema =
     [(''xhttp://schemas.xmlsoap.org/claims/Group'', Values [''admins''])]"
  by code_simp+

theorem get_dict_from_response_spec_witness:
  "resp_code two_groups = Some 200 \<and>
   map_of (get_dict_from_response two_groups) ''Group'' = Some (Values [''admins'', ''users'']) \<and>
   map_of (get_dict_from_response two_groups) ''Email'' = None \<and>
   get_dict_from_response (two_groups\<lparr>resp_code := Some 401\<rparr>) = []"
proof -
  have r: "resp_code two_groups = Some 200" by (simp add: two_groups_def)
  have e: "replace_with_empty REMOTE_APP_RESOURCE_SCHEMA ''http://schemas.xmlsoap.org/claims/Group''
      = ''Group''" by code_simp
  have pre: "resp_code two_groups = None \<or>
      (\<exists>code. resp_code two_groups = Some code \<and> code \<le> 400)" using r by simp
  note m = get_dict_from_response_spec[of two_groups, THEN conjunct2, THEN conjunct1,
      rule_format, OF pre]
  have a: "map_of (get_dict_from_response two_groups) ''Group'' = Some (Values [''admins'', ''users''])"
    unfolding m by (simp add: two_groups_def e)
  have b: "map_of (get_dict_from_response two_groups) ''Email'' = None"
    unfolding m by (simp add: two_groups_def e)
  have c: "get_dict_from_response (two_groups\<lparr>resp_code := Some 401\<rparr>) = []"
    using get_dict_from_response_spec[of "two_groups\<lparr>resp_code := Some 401\<rparr>",
        THEN conjunct1, rule_format, of 401] by simp
  from r a b c show ?thesis by simp
qed

section \<open>Directory fallback client\<close>

text \<open>
  Claim C2 fails on the source. When the directory finds no entry, \<^verbatim>\<open>lc.result()\<close> is
  \<^verbatim>\<open>(101, [])\<close>: \<^verbatim>\<open>res[0]\<close> raises \<^verbatim>\<open>IndexError\<close>, which the handler swallows, but
  \<^verbatim>\<open>res\<close> is by then the empty list, and \<^verbatim>\<open>res.get\<close> raises \<^verbatim>\<open>AttributeError\<close>
  after the \<^verbatim>\<open>try\<close> block.
\<close>

theorem get_user_resources_ldap_no_entry:
  "get_user_resources_ldap ''a@b.com'' (Inr no_entry) = Inl AttributeError"
  by code_simp

text \<open>
  Further behaviour of the lookup: an empty email gives the response \<^verbatim>\<open>jsonify([])\<close>;
  a matching entry gives its groups; an entry whose mail does not match gives no groups
  but the profile fields of that entry; an entry without \<^verbatim>\<open>mail\<close> raises \<^verbatim>\<open>KeyError\<close>;
  the safe defaults come out when \<^verbatim>\<open>lc.result()\<close> itself raises \<^verbatim>\<open>IndexError\<close> or
  \<^verbatim>\<open>TypeError\<close>.
\<close>

lemma get_user_resources_ldap_empty_email:
  "get_user_resources_ldap [] answer = Inr JsonifyEmptyList"
  by (simp add: get_user_resources_ldap_def)

lemma get_user_resources_ldap_match:
  "get_user_resources_ldap ''a@b.com'' (Inr one_entry) =
     Inr (Resource
       [(''Group'', Values [''GroupX'']), (''EmailAddress'', Values [''a@b.com'']),
        (''uidNumber'', NoneList), (''CommonName'', NoneList),
        (''Firstname'', Values [''Ada B'']), (''Lastname'', Values [''Ada B'']),
        (''DisplayName'', Values [''Ada B'']), (''Building'', NoneList),
        (''Department'', NoneList), (''PersonID'', NoneList), (''IdentityClass'', NoneList)])"
  by code_simp

lemma get_user_resources_ldap_mismatch:
  "get_user_resources_ldap ''x@b.com'' (Inr one_entry) =
     Inr (Resource
       [(''Group'', Values []), (''EmailAddress'', Values [''x@b.com'']),
        (''uidNumber'', NoneList), (''CommonName'', NoneList),
        (''Firstname'', Values [''Ada B'']), (''Lastname'', Values [''Ada B'']),
        (''DisplayName'', Values [''Ada B'']), (''Building'', NoneList),
        (''Department'', NoneList), (''PersonID'', NoneList), (''IdentityClass'', NoneList)])"
  by code_simp

lemma get_user_resources_ldap_no_mail:
  "get_user_resources_ldap ''a@b.com''
     (Inr (PTuple [PInt 101, PList [PTuple [PBytes ''CN=ab,OU=Users'', PDict []]]])) =
   Inl KeyError"
  by code_simp

lemma get_user_resources_ldap_result_raises:
  assumes "email \<noteq> []" and "e = IndexError \<or> e = TypeError"
  shows "get_user_resources_ldap email (Inl e) =
     Inr (Resource
       [(''Group'', Values []), (''EmailAddress'', Values [email]),
        (''uidNumber'', NoneList), (''CommonName'', NoneList),
        (''Firstname'', NoneList), (''Lastname'', NoneList),
        (''DisplayName'', NoneList), (''Building'', NoneList),
        (''Department'', NoneList), (''PersonID'', NoneList), (''IdentityClass'', NoneList)])"
  using assms
  by (auto simp: get_user_resources_ldap_def ldap_try_body_def ldap_record_def
      LDAP_RECORD_FIELDS_def get_ldap_field_str_def nth_or_IndexError_def)

section \<open>Resource fetcher\<close>

text \<open>
  Claim C4, as amended. \<open>get_resource\<close> empties the per-request cache slot and returns
  what it held when that is a non-empty record. Otherwise it calls the REST resource:
  on status 200 it normalizes the answer and stores it in the slot; on another status it
  falls back to the directory for an authenticated user, storing nothing, and rejects
  with 400 for anyone else. A second call right after a call that stored a non-empty
  record returns that record with no further network call, and leaves the slot empty.
\<close>

theorem get_resource_resolution:
  "(\<forall>r. session_cern_resource w = Some r \<longrightarrow> r \<noteq> [] \<longrightarrow>
       get_resource e remote w = (Inr (Resource r), w\<lparr>session_cern_resource := None\<rparr>))
   \<and> ((session_cern_resource w = None \<or> session_cern_resource w = Some []) \<longrightarrow>
       (\<forall>rem. remote = Some rem \<longrightarrow>
          (status (remote_answer rem) = 200 \<longrightarrow>
             get_resource e remote w =
               (Inr (Resource (get_dict_from_response (remote_answer rem))),
                w\<lparr>session_cern_resource := Some (get_dict_from_response (remote_answer rem)),
                  rest_calls := rest_calls w + 1\<rparr>))
        \<and> (status (remote_answer rem) \<noteq> 200 \<longrightarrow> user_is_authenticated e \<longrightarrow>
             get_resource e remote w =
               (get_user_resources_ldap (user_email e) (lc_result e),
                w\<lparr>session_cern_resource := None,
                  rest_calls := rest_calls w + 1,
                  ldap_calls := ldap_calls w + (if user_email e = [] then 0 else 1)\<rparr>))
        \<and> (status (remote_answer rem) \<noteq> 200 \<longrightarrow> \<not> user_is_authenticated e \<longrightarrow>
             get_resource e remote w =
               (Inl (HTTPException 400),
                w\<lparr>session_cern_resource := None, rest_calls := rest_calls w + 1\<rparr>))))
   \<and> ((session_cern_resource w = None \<or> session_cern_resource w = Some []) \<longrightarrow>
       (\<forall>rem. remote = Some rem \<longrightarrow> status (remote_answer rem) = 200 \<longrightarrow>
          get_dict_from_response (remote_answer rem) \<noteq> [] \<longrightarrow>
          get_resource e remote' (snd (get_resource e remote w)) =
            (Inr (Resource (get_dict_from_response (remote_answer rem))),
             w\<lparr>session_cern_resource := None, rest_calls := rest_calls w + 1\<rparr>)))"
  by (auto simp: get_resource_def get_resource_uncached_def Let_def)

text \<open>
  Claim C4 as stated fails: when the REST resource answers 500, each of two calls in one
  request queries the directory.
\<close>

theorem get_resource_fallback_counterexample:
  "\<not> ldap_calls (snd (get_resource env0 (Some failing_remote)
          (snd (get_resource env0 (Some failing_remote) world0))))
      \<le> ldap_calls world0 + 1"
  by code_simp

lemma working_remote_dict:
  "get_dict_from_response (remote_answer working_remote) =
     [(''Group'', Values [''admins'', ''CERN Users'', ''users''])]"
  by code_simp

theorem get_resource_resolution_witness:
  "(session_cern_resource world0 = None \<or> session_cern_resource world0 = Some []) \<and>
   status (remote_answer working_remote) = 200 \<and>
   get_dict_from_response (remote_answer working_remote) \<noteq> [] \<and>
   fst (get_resource env0 (Some working_remote) world0) =
     Inr (Resource [(''Group'', Values [''admins'', ''CERN Users'', ''users''])]) \<and>
   session_cern_resource (snd (get_resource env0 (Some working_remote) world0)) =
     Some [(''Group'', Values [''admins'', ''CERN Users'', ''users''])] \<and>
   get_resource env0 (Some working_remote) (snd (get_resource env0 (Some working_remote) world0)) =
     (Inr (Resource [(''Group'', Values [''admins'', ''CERN Users'', ''users''])]),
      world0\<lparr>session_cern_resource := None, rest_calls := rest_calls world0 + 1\<rparr>)"
proof -
  have a: "session_cern_resource world0 = None \<or> session_cern_resource world0 = Some []"
    by (simp add: world0_def)
  have b: "status (remote_answer working_remote) = 200" by (simp add: working_remote_def)
  have c: "get_dict_from_response (remote_answer working_remote) \<noteq> []"
    by (simp add: working_remote_dict)
  note t = get_resource_resolution[of world0 env0 "Some working_remote" "Some working_remote"]
  have first: "get_resource env0 (Some working_remote) world0 =
      (Inr (Resource (get_dict_from_response (remote_answer working_remote))),
       world0\<lparr>session_cern_resource :=
                 Some (get_dict_from_response (remote_answer working_remote)),
              rest_calls := rest_calls world0 + 1\<rparr>)"
    using t a b by blast
  have second: "get_resource env0 (Some working_remote)
        (snd (get_resource env0 (Some working_remote) world0)) =
      (Inr (Resource (get_dict_from_response (remote_answer working_remote))),
       world0\<lparr>session_cern_resource := None, rest_calls := rest_calls world0 + 1\<rparr>)"
    using t a b c by blast
  show ?thesis
    using a b c second by (simp add: first working_remote_dict)
qed

section \<open>Account lifecycle hooks\<close>

lemma get_resource_keeps:
  "remote_accounts (snd (get_resource e remote w)) = remote_accounts w"
  "heap (snd (get_resource e remote w)) = heap w"
  "next_addr (snd (get_resource e remote w)) = next_addr w"
  "identity_provides (snd (get_resource e remote w)) = identity_provides w"
  "session_cern_provides (snd (get_resource e remote w)) = session_cern_provides w"
  "user_identities (snd (get_resource e remote w)) = user_identities w"
  by (auto simp: get_resource_def get_resource_uncached_def Let_def split: option.splits)

lemma get_resource_heap:
  "fst (get_resource e remote (w\<lparr>heap := h, next_addr := n\<rparr>)) = fst (get_resource e remote w)"
  by (auto simp: get_resource_def get_resource_uncached_def Let_def split: option.splits)

lemma RemoteAccount_get_Some:
  assumes "RemoteAccount_get accounts uid cid = Some account"
  shows "account_user_id account = uid" "account_client_id account = cid"
  using assms by (auto simp: RemoteAccount_get_def find_Some_iff)

lemma RemoteAccount_get_set_extra_data:
  assumes "RemoteAccount_get accounts uid cid = Some account"
  shows "RemoteAccount_get (set_extra_data account xd accounts) uid cid =
           Some (account\<lparr>account_extra_data := xd\<rparr>)"
proof -
  note k = RemoteAccount_get_Some[OF assms]
  have f: "find (\<lambda>a. account_user_id a = uid \<and> account_client_id a = cid)
          (map (\<lambda>a. if account_user_id a = uid \<and> account_client_id a = cid
                     then a\<lparr>account_extra_data := xd\<rparr> else a) accs) =
        map_option (\<lambda>a. a\<lparr>account_extra_data := xd\<rparr>)
          (find (\<lambda>a. account_user_id a = uid \<and> account_client_id a = cid) accs)" for accs
    by (induction accs) auto
  show ?thesis
    unfolding RemoteAccount_get_def set_extra_data_def k f
    using assms[unfolded RemoteAccount_get_def] by simp
qed

lemma xd_groups_update_extra: "xd_groups (update_extra extra xd) = xd_groups xd"
  by (induction extra xd rule: update_extra.induct) auto

text \<open>
  Claim C5. On an identity-changed event for an identity that is not anonymous, with a
  linked account whose data is stale, and a resource fetched with a \<^verbatim>\<open>Group\<close> field:
  the hook succeeds, the groups extended into the identity (and recorded in the session
  role cache) are the previously cached list followed by the newly fetched filtered
  groups, and the persisted snapshot holds the newly fetched filtered groups only.
  (Addresses of list objects the account refers to are below the next free address.)
\<close>

theorem on_identity_changed_stale:
  assumes acc: "RemoteAccount_get (remote_accounts w) (user_id e)
        (cfg_consumer_key (app_config e)) = Some account"
    and inv: "\<forall>a. xd_groups (account_extra_data account) = Some a \<longrightarrow> a < next_addr w"
    and stale: "should_refresh_groups (utcnow e) (xd_updated (account_extra_data account))
        (config_get (cfg_refresh_timedelta (app_config e))
           (Some OAUTHCLIENT_CERN_REFRESH_TIMEDELTA)) = Inr True"
    and res: "fst (get_resource e
        (find_remote_by_client_id (remote_apps e) (cfg_consumer_key (app_config e))) w)
          = Inr (Resource r)"
    and grp: "map_of r ''Group'' = Some (Values all_groups)"
    and ser: "config_get (cfg_extra_data_serializer (app_config e)) fetch_extra_data r = Inr extra"
      "''groups'' \<notin> fst ` set extra" "''updated'' \<notin> fst ` set extra"
  shows "\<exists>w'. on_identity_changed e False w = (Inr (), w') \<and>
     identity_provides w' =
       identity_provides w \<union>
       cern_provides (user_email e)
         ((case xd_groups (account_extra_data account) of
             None \<Rightarrow> [] | Some addr \<Rightarrow> heap w addr)
          @ fetch_groups
              (config_get (cfg_hidden_groups (app_config e)) OAUTHCLIENT_CERN_HIDDEN_GROUPS)
              (config_get (cfg_hidden_groups_re (app_config e))
                 OAUTHCLIENT_CERN_HIDDEN_GROUPS_RE)
              all_groups) \<and>
     session_cern_provides w' =
       Some (cern_provides (user_email e)
         ((case xd_groups (account_extra_data account) of
             None \<Rightarrow> [] | Some addr \<Rightarrow> heap w addr)
          @ fetch_groups
              (config_get (cfg_hidden_groups (app_config e)) OAUTHCLIENT_CERN_HIDDEN_GROUPS)
              (config_get (cfg_hidden_groups_re (app_config e))
                 OAUTHCLIENT_CERN_HIDDEN_GROUPS_RE)
              all_groups)) \<and>
     snapshot_groups w' (user_id e) (cfg_consumer_key (app_config e)) =
       Some (fetch_groups
              (config_get (cfg_hidden_groups (app_config e)) OAUTHCLIENT_CERN_HIDDEN_GROUPS)
              (config_get (cfg_hidden_groups_re (app_config e))
                 OAUTHCLIENT_CERN_HIDDEN_GROUPS_RE)
              all_groups)"
proof -
  define cid where "cid = cfg_consumer_key (app_config e)"
  define remote where "remote = find_remote_by_client_id (remote_apps e) cid"
  define new where "new = fetch_groups
      (config_get (cfg_hidden_groups (app_config e)) OAUTHCLIENT_CERN_HIDDEN_GROUPS)
      (config_get (cfg_hidden_groups_re (app_config e)) OAUTHCLIENT_CERN_HIDDEN_GROUPS_RE)
      all_groups"
  define old where "old = (case xd_groups (account_extra_data account) of
      None \<Rightarrow> [] | Some addr \<Rightarrow> heap w addr)"
  define g where "g = (case xd_groups (account_extra_data account) of
      None \<Rightarrow> next_addr w | Some addr \<Rightarrow> addr)"
  define w1 where "w1 = (case xd_groups (account_extra_data account) of
      None \<Rightarrow> w\<lparr>heap := (heap w)(next_addr w := []), next_addr := next_addr w + 1\<rparr>
    | Some addr \<Rightarrow> w)"
  define w2 where "w2 = snd (get_resource e remote w1)"
  have w1_acc: "remote_accounts w1 = remote_accounts w"
    and w1_prov: "identity_provides w1 = identity_provides w"
    and w1_old: "heap w1 g = old"
    and w1_next: "g < next_addr w1"
    using inv by (auto simp: w1_def g_def old_def split: option.splits)
  have r1: "fst (get_resource e remote w1) = Inr (Resource r)"
    using res unfolding remote_def cid_def w1_def
    by (simp add: get_resource_heap split: option.splits)
  then have gr: "get_resource e remote w1 = (Inr (Resource r), w2)"
    unfolding w2_def by (metis prod.collapse)
  define xd where "xd = update_extra extra
      ((account_extra_data account)
         \<lparr>xd_groups := Some (next_addr w2), xd_updated := Some (isoformat (utcnow e))\<rparr>)"
  define w3 where "w3 = w2\<lparr>heap := (heap w2)(next_addr w2 := new), next_addr := next_addr w2 + 1,
      remote_accounts := set_extra_data account xd (remote_accounts w2)\<rparr>"
  have ag: "account_groups_and_extra_data e account (Resource r) w2 = (Inr (next_addr w2), w3)"
    using grp ser
    by (simp add: account_groups_and_extra_data_def Let_def new_def xd_def w3_def)
  have k2: "next_addr w2 = next_addr w1" "heap w2 = heap w1"
    "remote_accounts w2 = remote_accounts w" "identity_provides w2 = identity_provides w"
    unfolding w2_def by (simp_all add: get_resource_keeps w1_acc w1_prov)
  have ne: "g \<noteq> next_addr w2" using w1_next k2(1) by simp
  define w4 where "w4 = w3\<lparr>heap := (heap w3)(g := heap w3 g @ heap w3 (next_addr w2))\<rparr>"
  have rf: "refresh_groups e account cid g w1 = (Inr (), w4)"
    by (simp add: refresh_groups_def remote_def[symmetric] gr ag w4_def)
  have h4: "heap w4 g = old @ new" "heap w4 (next_addr w2) = new"
    using ne by (simp_all add: w4_def w3_def k2 w1_old)
  have "on_identity_changed e False w =
      (Inr (), extend_identity (user_email e) (heap w4 g) w4)"
    using acc stale rf
    by (simp add: on_identity_changed_def cid_def[symmetric] Let_def g_def w1_def
        split: option.splits)
  moreover have "identity_provides (extend_identity (user_email e) (heap w4 g) w4) =
      identity_provides w \<union> cern_provides (user_email e) (old @ new)"
  proof -
    have "identity_provides w4 = identity_provides w" by (simp add: w4_def w3_def k2)
    then show ?thesis unfolding h4(1)[symmetric] by (simp add: extend_identity_def Let_def)
  qed
  moreover have "session_cern_provides (extend_identity (user_email e) (heap w4 g) w4) =
      Some (cern_provides (user_email e) (old @ new))"
    unfolding h4(1)[symmetric] by (simp add: extend_identity_def Let_def)
  moreover have "snapshot_groups (extend_identity (user_email e) (heap w4 g) w4) (user_id e) cid
      = Some new"
  proof -
    have "remote_accounts (extend_identity (user_email e) (heap w4 g) w4) =
        set_extra_data account xd (remote_accounts w)"
      by (simp add: extend_identity_def Let_def w4_def w3_def k2)
    moreover have "heap (extend_identity (user_email e) (heap w4 g) w4) = heap w4"
      by (simp add: extend_identity_def Let_def)
    moreover have "xd_groups xd = Some (next_addr w2)"
      by (simp add: xd_def xd_groups_update_extra)
    ultimately show ?thesis
      using RemoteAccount_get_set_extra_data[OF acc[folded cid_def], of xd] h4(2)
      by (simp add: snapshot_groups_def)
  qed
  ultimately show ?thesis
    unfolding cid_def new_def old_def by blast
qed

lemma fetch_groups_example:
  "fetch_groups OAUTHCLIENT_CERN_HIDDEN_GROUPS OAUTHCLIENT_CERN_HIDDEN_GROUPS_RE
     [''admins'', ''CERN Users'', ''users''] = [''admins'', ''users'']"
  by code_simp

theorem on_identity_changed_stale_witness:
  "fst (on_identity_changed env0 False world1) = Inr () \<and>
   identity_provides (snd (on_identity_changed env0 False world1)) =
     identity_provides world1 \<union> cern_provides ''a@b.com'' [''old-group'', ''admins'', ''users''] \<and>
   session_cern_provides (snd (on_identity_changed env0 False world1)) =
     Some (cern_provides ''a@b.com'' [''old-group'', ''admins'', ''users'']) \<and>
   snapshot_groups (snd (on_identity_changed env0 False world1)) 1 ''key'' =
     Some [''admins'', ''users'']"
proof -
  have acc: "RemoteAccount_get (remote_accounts world1) (user_id env0)
      (cfg_consumer_key (app_config env0)) = Some account0"
    by (simp add: RemoteAccount_get_def world1_def env0_def config0_def account0_def)
  have inv: "\<forall>a. xd_groups (account_extra_data account0) = Some a \<longrightarrow> a < next_addr world1"
    by (simp add: account0_def world1_def)
  have stale: "should_refresh_groups (utcnow env0) (xd_updated (account_extra_data account0))
      (config_get (cfg_refresh_timedelta (app_config env0))
         (Some OAUTHCLIENT_CERN_REFRESH_TIMEDELTA)) = Inr True"
    by code_simp
  have res: "fst (get_resource env0
      (find_remote_by_client_id (remote_apps env0) (cfg_consumer_key (app_config env0))) world1)
        = Inr (Resource [(''Group'', Values [''admins'', ''CERN Users'', ''users''])])"
    by code_simp
  have grp: "map_of [(''Group'', Values [''admins'', ''CERN Users'', ''users''])] ''Group'' =
      Some (Values [''admins'', ''CERN Users'', ''users''])" by simp
  have ser: "config_get (cfg_extra_data_serializer (app_config env0)) fetch_extra_data
      [(''Group'', Values [''admins'', ''CERN Users'', ''users''])] =
      Inr [(''person_id'', None), (''identity_class'', None), (''department'', None)]"
    by code_simp
  have k: "''groups'' \<notin> fst ` set [(''person_id'', None :: string option),
      (''identity_class'', None), (''department'', None)]"
    "''updated'' \<notin> fst ` set [(''person_id'', None :: string option),
      (''identity_class'', None), (''department'', None)]"
    by simp_all
  have cfg: "config_get (cfg_hidden_groups (app_config env0)) OAUTHCLIENT_CERN_HIDDEN_GROUPS
      = OAUTHCLIENT_CERN_HIDDEN_GROUPS"
    "config_get (cfg_hidden_groups_re (app_config env0)) OAUTHCLIENT_CERN_HIDDEN_GROUPS_RE
      = OAUTHCLIENT_CERN_HIDDEN_GROUPS_RE"
    "user_email env0 = ''a@b.com''" "user_id env0 = 1"
    "cfg_consumer_key (app_config env0) = ''key''"
    "(case xd_groups (account_extra_data account0) of None \<Rightarrow> []
       | Some addr \<Rightarrow> heap world1 addr) = [''old-group'']"
    by (simp_all add: env0_def config0_def config_get_def account0_def world1_def)
  from on_identity_changed_stale[OF acc inv stale res grp ser k]
  obtain w' where "on_identity_changed env0 False world1 = (Inr (), w')"
    "identity_provides w' = identity_provides world1 \<union>
       cern_provides ''a@b.com'' ([''old-group''] @ [''admins'', ''users''])"
    "session_cern_provides w' =
       Some (cern_provides ''a@b.com'' ([''old-group''] @ [''admins'', ''users'']))"
    "snapshot_groups w' 1 ''key'' = Some [''admins'', ''users'']"
    unfolding cfg fetch_groups_example by blast
  then show ?thesis by simp
qed

text \<open>
  Claim C10. For an authenticated user, \<open>disconnect_handler\<close> reads the extra data of
  the lookup result first: with no linked account it raises \<^verbatim>\<open>AttributeError\<close> and the
  state is as before, nothing unlinked or deleted. Whenever it returns a response, a
  linked account existed, the response is the redirect to the settings view, the account
  is deleted, its external id is unlinked and the cached claims are removed.
\<close>

theorem disconnect_handler_needs_account:
  "user_is_authenticated e \<longrightarrow>
     (RemoteAccount_get (remote_accounts w) (user_id e) (consumer_key remote) = None \<longrightarrow>
        disconnect_handler e remote w = (Inl AttributeError, w))
     \<and> (\<forall>response w'. disconnect_handler e remote w = (Inr response, w') \<longrightarrow>
          (\<exists>account cached.
             RemoteAccount_get (remote_accounts w) (user_id e) (consumer_key remote) = Some account \<and>
             response = Redirect ''invenio_oauthclient_settings.index'' \<and>
             remote_accounts w' = RemoteAccount_delete account (remote_accounts w) \<and>
             user_identities w' =
               (case xd_external_id (account_extra_data account) of
                  None \<Rightarrow> user_identities w
                | Some ext \<Rightarrow>
                    if ext \<noteq> [] then oauth_unlink_external_id ext ''cern'' (user_identities w)
                    else user_identities w) \<and>
             session_cern_provides w = Some cached \<and>
             identity_provides w' = identity_provides w - cached \<and>
             session_cern_provides w' = None))"
  by (auto simp: disconnect_handler_def disconnect_identity_def Let_def
      split: option.splits if_splits)

theorem disconnect_handler_needs_account_witness:
  "user_is_authenticated env0 \<and>
   RemoteAccount_get (remote_accounts world_no_account) (user_id env0) (consumer_key working_remote)
     = None \<and>
   disconnect_handler env0 working_remote world_no_account = (Inl AttributeError, world_no_account) \<and>
   fst (disconnect_handler env0 working_remote world1) =
     Inr (Redirect ''invenio_oauthclient_settings.index'') \<and>
   remote_accounts (snd (disconnect_handler env0 working_remote world1)) = [] \<and>
   user_identities (snd (disconnect_handler env0 working_remote world1)) = [] \<and>
   identity_provides (snd (disconnect_handler env0 working_remote world1)) = {Need ''id'' ''1''}"
proof -
  have auth: "user_is_authenticated env0" by (simp add: env0_def)
  have none: "RemoteAccount_get (remote_accounts world_no_account) (user_id env0)
      (consumer_key working_remote) = None"
    by (simp add: world_no_account_def RemoteAccount_get_def)
  note t = disconnect_handler_needs_account[of env0, rule_format, OF auth]
  have fails: "disconnect_handler env0 working_remote world_no_account =
      (Inl AttributeError, world_no_account)"
    using t[of world_no_account working_remote] none by blast
  have runs: "fst (disconnect_handler env0 working_remote world1) =
     Inr (Redirect ''invenio_oauthclient_settings.index'') \<and>
   remote_accounts (snd (disconnect_handler env0 working_remote world1)) = [] \<and>
   user_identities (snd (disconnect_handler env0 working_remote world1)) = [] \<and>
   identity_provides (snd (disconnect_handler env0 working_remote world1)) = {Need ''id'' ''1''}"
    by code_simp
  from auth none fails runs show ?thesis by simp
qed

end
